theory Spec2Isabelle
  imports Complex_Main "HOL-Library.Word"
begin

section \<open>The remote layer tree of LayerTreeHostProxyQt.cpp\<close>

text \<open>
  The UI-process side of the tiled compositor keeps a mirror of the web process's layer
  tree. Messages from the web process are queued (\<open>pushUpdateToQueue\<close>) and replayed
  during paint (\<open>syncRemoteContent\<close>). The embedding below follows
  \<^verbatim>\<open>Source/WebKit2/UIProcess/qt/LayerTreeHostProxyQt.cpp\<close> function by function.
  C++ objects that the file reaches through pointers (\<open>GraphicsLayer*\<close>,
  \<open>RefPtr<LayerBackingStore>\<close>) live in explicit heaps; a pointer is an index into
  the heap, allocation appends a cell, \<open>delete\<close> empties the cell.
\<close>

subsection \<open>Scalar and geometry types\<close>

text \<open>
  \<open>WebLayerID\<close> is \<open>uint32_t\<close>, tile identifiers are \<open>int\<close>, image keys are
  \<open>int64_t\<close>: identifiers are only compared, so a word of the right width holds the
  bit pattern. \<open>float\<close> values are only stored and copied, never computed on; they are
  kept as their 32-bit pattern. Times are \<open>double\<close> and enter one subtraction; they
  are idealised as reals.
\<close>

type_synonym WebLayerID = "32 word"
type_synonym TileID = "32 word"
type_synonym ImageID = "64 word"
type_synonym cfloat = "32 word"
type_synonym cdouble = real

type_synonym layer_ptr = nat
type_synonym store_ptr = nat

text \<open>
  Pixel content of a \<open>ShareableBitmap\<close>, by an opaque identifier. The bitmap of a message
  is taken to be present: a null \<open>RefPtr<ShareableBitmap>\<close> is not modelled.
\<close>
type_synonym ShareableBitmap = nat

datatype IntRect = IntRect (rect_x: int) (rect_y: int) (rect_width: int) (rect_height: int)

type_synonym IntSize = "int \<times> int"
type_synonym IntPoint = "int \<times> int"
type_synonym FloatPoint = "cfloat \<times> cfloat"
type_synonym FloatSize = "cfloat \<times> cfloat"
type_synonym FloatPoint3D = "cfloat \<times> cfloat \<times> cfloat"
type_synonym TransformationMatrix = "64 word list"

definition float_0 :: cfloat where "float_0 = 0"
definition float_half :: cfloat where "float_half = 0x3F000000"
definition float_1 :: cfloat where "float_1 = 0x3F800000"

text \<open>
  Modelled from the spec: \<open>InvalidWebLayerID\<close> is declared in WebLayerTreeInfo.h, which
  is not under src/. The spec reserves the identifier 0 for "none".
\<close>
definition InvalidWebLayerID :: WebLayerID where
  "InvalidWebLayerID = 0"

subsection \<open>Messages\<close>

datatype Operation = AddAnimation | RemoveAnimation | PauseAnimation

text \<open>
  \<open>WebLayerAnimation\<close> and \<open>WebLayerInfo\<close> are declared in WebLayerTreeInfo.h (not
  under src/); the fields are the ones \<open>syncLayerParameters\<close> reads. A field \<open>f\<close> of
  \<open>WebLayerAnimation\<close> is \<open>anim_f\<close>, a field \<open>f\<close> of \<open>WebLayerInfo\<close> is \<open>info_f\<close>.
  Keyframes and the animation object are opaque identifiers.
\<close>

record WebLayerAnimation =
  anim_operation :: Operation
  anim_name :: string
  anim_keyframeList :: nat
  anim_boxSize :: IntSize
  anim_animation :: nat
  anim_startTime :: cdouble

record WebLayerInfo =
  info_id :: WebLayerID
  info_name :: string
  info_replica :: WebLayerID
  info_mask :: WebLayerID
  info_imageBackingStoreID :: ImageID
  info_pos :: FloatPoint
  info_size :: FloatSize
  info_transform :: TransformationMatrix
  info_anchorPoint :: FloatPoint3D
  info_childrenTransform :: TransformationMatrix
  info_contentsRect :: IntRect
  info_opacity :: cfloat
  info_isRootLayer :: bool
  info_contentsOpaque :: bool
  info_drawsContent :: bool
  info_backfaceVisible :: bool
  info_masksToBounds :: bool
  info_preserves3D :: bool
  info_imageIsUpdated :: bool
  info_children :: "WebLayerID list"
  info_animations :: "WebLayerAnimation list"

text \<open>
  \<open>LayerTreeMessageToRenderer\<close> with its nine \<open>Type\<close>s; each constructor carries the
  fields of the message's data struct.
\<close>

datatype LayerTreeMessageToRenderer =
    DeleteLayer WebLayerID
  | CreateTile WebLayerID TileID cfloat
  | RemoveTile WebLayerID TileID
  | UpdateTile WebLayerID TileID IntRect IntRect ShareableBitmap
  | CreateImage ImageID ShareableBitmap
  | DestroyImage ImageID
  | SyncLayerParameters WebLayerInfo
  | FlushLayerChanges
  | SetRootLayer WebLayerID

text \<open>Messages sent to the web process through \<open>process()->send\<close>.\<close>

datatype LayerTreeHostMessage = RenderNextFrame | PurgeBackingStores

subsection \<open>Layer nodes\<close>

text \<open>
  The active animations of a node. Modelled from the spec: \<open>addAnimation\<close>,
  \<open>removeAnimation\<close> and \<open>pauseAnimation\<close> are members of GraphicsLayerTextureMapper,
  which is not under src/; the spec has the operations applied in list order against the
  node's animation set, a paused animation keeping its offset.
\<close>

record LayerAnimation =
  la_name :: string
  la_keyframeList :: nat
  la_boxSize :: IntSize
  la_animation :: nat
  la_startTime :: cdouble
  la_pausedAt :: "cdouble option"

record GraphicsLayer =
  m_name :: string
  m_parent :: "layer_ptr option"
  m_children :: "layer_ptr list"
  m_maskLayer :: "layer_ptr option"
  m_replicaLayer :: "layer_ptr option"
  m_position :: FloatPoint
  m_anchorPoint :: FloatPoint3D
  m_size :: FloatSize
  m_transform :: TransformationMatrix
  m_childrenTransform :: TransformationMatrix
  m_opacity :: cfloat
  m_preserves3D :: bool
  m_backfaceVisibility :: bool
  m_contentsOpaque :: bool
  m_drawsContent :: bool
  m_masksToBounds :: bool
  m_contentsRect :: IntRect
  m_contentsMedia :: "ShareableBitmap option"
  m_backingStore :: "store_ptr option"
  m_shouldUpdateBackingStoreFromLayer :: bool
  m_animations :: "LayerAnimation list"

text \<open>
  Modelled from the spec: the constructor and the setters of GraphicsLayer
  (GraphicsLayer.cpp is not under src/). A node that no command has touched yet has no
  parent, no children, no backing store, no image and no animation. A setter stores its
  argument in the attribute; the mask and the replica are weak references to other nodes.
  The backing store and the contents image, which the source keeps in the node's
  TextureMapperLayer, are attributes of the node as well.
\<close>

definition newGraphicsLayer :: GraphicsLayer where
  "newGraphicsLayer =
    \<lparr> m_name = [], m_parent = None, m_children = [], m_maskLayer = None,
      m_replicaLayer = None, m_position = (float_0, float_0),
      m_anchorPoint = (float_half, float_half, float_0), m_size = (float_0, float_0),
      m_transform = [], m_childrenTransform = [], m_opacity = float_1,
      m_preserves3D = False, m_backfaceVisibility = True, m_contentsOpaque = False,
      m_drawsContent = False, m_masksToBounds = False,
      m_contentsRect = IntRect 0 0 0 0, m_contentsMedia = None, m_backingStore = None,
      m_shouldUpdateBackingStoreFromLayer = True, m_animations = [] \<rparr>"

subsection \<open>Heaps\<close>

text \<open>
  A heap is a list of cells. A pointer is an index; a freed or unallocated index reads as
  \<open>None\<close>. Allocation appends, so a new pointer never aliases an old one.
\<close>

type_synonym 'a heap = "'a option list"

definition heap_get :: "'a heap \<Rightarrow> nat \<Rightarrow> 'a option" where
  "heap_get h p = (if p < length h then h ! p else None)"

definition heap_upd :: "nat \<Rightarrow> ('a \<Rightarrow> 'a) \<Rightarrow> 'a heap \<Rightarrow> 'a heap" where
  "heap_upd p f h = (case heap_get h p of None \<Rightarrow> h | Some v \<Rightarrow> h[p := Some (f v)])"

definition heap_alloc :: "'a \<Rightarrow> 'a heap \<Rightarrow> nat \<times> 'a heap" where
  "heap_alloc v h = (length h, h @ [Some v])"

definition heap_free :: "nat \<Rightarrow> 'a heap \<Rightarrow> 'a heap" where
  "heap_free p h = h[p := None]"

subsection \<open>The child list of a node\<close>

text \<open>
  Modelled from the spec: \<open>removeFromParent\<close>, \<open>removeAllChildren\<close>, \<open>addChild\<close>,
  \<open>setChildren\<close> and the destructor are members of GraphicsLayer (GraphicsLayer.cpp is
  not under src/). The spec has a node hold an ordered sequence of child references and a
  parent; detaching a node takes it out of its parent's sequence; the child list is
  replaced as a whole, not diffed; attaching a node that sits under another parent
  detaches it there first.
\<close>

definition removeFromParent :: "layer_ptr \<Rightarrow> GraphicsLayer heap \<Rightarrow> GraphicsLayer heap" where
  "removeFromParent p h =
    (case heap_get h p of
       None \<Rightarrow> h
     | Some l \<Rightarrow>
        (case m_parent l of
           None \<Rightarrow> h
         | Some q \<Rightarrow>
            heap_upd p (\<lambda>l. l\<lparr>m_parent := None\<rparr>)
              (heap_upd q (\<lambda>ql. ql\<lparr>m_children := remove1 p (m_children ql)\<rparr>) h)))"

definition removeAllChildren :: "layer_ptr \<Rightarrow> GraphicsLayer heap \<Rightarrow> GraphicsLayer heap" where
  "removeAllChildren p h =
    (case heap_get h p of
       None \<Rightarrow> h
     | Some l \<Rightarrow>
        fold (\<lambda>c. heap_upd c (\<lambda>cl. cl\<lparr>m_parent := None\<rparr>)) (m_children l)
          (heap_upd p (\<lambda>l. l\<lparr>m_children := []\<rparr>) h))"

definition addChild :: "layer_ptr \<Rightarrow> layer_ptr \<Rightarrow> GraphicsLayer heap \<Rightarrow> GraphicsLayer heap" where
  "addChild p c h =
    heap_upd p (\<lambda>l. l\<lparr>m_children := m_children l @ [c]\<rparr>)
      (heap_upd c (\<lambda>cl. cl\<lparr>m_parent := Some p\<rparr>) (removeFromParent c h))"

definition setChildren :: "layer_ptr \<Rightarrow> layer_ptr list \<Rightarrow> GraphicsLayer heap \<Rightarrow> GraphicsLayer heap" where
  "setChildren p cs h = fold (addChild p) cs (removeAllChildren p h)"

definition deleteGraphicsLayer :: "layer_ptr \<Rightarrow> GraphicsLayer heap \<Rightarrow> GraphicsLayer heap" where
  "deleteGraphicsLayer p h = heap_free p (removeFromParent p (removeAllChildren p h))"

subsection \<open>Backing stores\<close>

text \<open>
  Modelled from the spec: LayerBackingStore and its tiles (LayerBackingStore.cpp is not
  under src/). A tile is absent, created (scale bound), has a pending update, or is
  visible after a swap. \<open>createTile\<close> leaves a tile that exists alone; \<open>updateTile\<close>
  records the newest pending content of a created tile, the last write winning;
  \<open>removeTile\<close> discards visible and pending state; \<open>swapBuffers\<close> makes pending
  content visible.
\<close>

record TileContent =
  tc_sourceRect :: IntRect
  tc_targetRect :: IntRect
  tc_bitmap :: ShareableBitmap

record LayerBackingStoreTile =
  tile_scale :: cfloat
  tile_visible :: "TileContent option"
  tile_backBuffer :: "TileContent option"

record LayerBackingStore =
  bs_tiles :: "TileID \<rightharpoonup> LayerBackingStoreTile"

definition LayerBackingStore_create :: LayerBackingStore where
  "LayerBackingStore_create = \<lparr> bs_tiles = Map.empty \<rparr>"

definition LayerBackingStore_createTile :: "TileID \<Rightarrow> cfloat \<Rightarrow> LayerBackingStore \<Rightarrow> LayerBackingStore" where
  "LayerBackingStore_createTile t scale bs =
    (case bs_tiles bs t of
       Some _ \<Rightarrow> bs
     | None \<Rightarrow> bs\<lparr>bs_tiles := (bs_tiles bs)(t \<mapsto>
          \<lparr> tile_scale = scale, tile_visible = None, tile_backBuffer = None \<rparr>)\<rparr>)"

definition LayerBackingStore_removeTile :: "TileID \<Rightarrow> LayerBackingStore \<Rightarrow> LayerBackingStore" where
  "LayerBackingStore_removeTile t bs = bs\<lparr>bs_tiles := (bs_tiles bs)(t := None)\<rparr>"

definition LayerBackingStore_updateTile ::
  "TileID \<Rightarrow> IntRect \<Rightarrow> IntRect \<Rightarrow> ShareableBitmap \<Rightarrow> LayerBackingStore \<Rightarrow> LayerBackingStore" where
  "LayerBackingStore_updateTile t sourceRect targetRect bitmap bs =
    (case bs_tiles bs t of
       None \<Rightarrow> bs
     | Some tile \<Rightarrow> bs\<lparr>bs_tiles := (bs_tiles bs)(t \<mapsto> tile\<lparr>tile_backBuffer :=
          Some \<lparr> tc_sourceRect = sourceRect, tc_targetRect = targetRect, tc_bitmap = bitmap \<rparr>\<rparr>)\<rparr>)"

definition LayerBackingStoreTile_swapBuffers :: "LayerBackingStoreTile \<Rightarrow> LayerBackingStoreTile" where
  "LayerBackingStoreTile_swapBuffers tile =
    (case tile_backBuffer tile of
       None \<Rightarrow> tile
     | Some c \<Rightarrow> tile\<lparr>tile_visible := Some c, tile_backBuffer := None\<rparr>)"

definition LayerBackingStore_swapBuffers :: "LayerBackingStore \<Rightarrow> LayerBackingStore" where
  "LayerBackingStore_swapBuffers bs =
    bs\<lparr>bs_tiles := (\<lambda>t. map_option LayerBackingStoreTile_swapBuffers (bs_tiles bs t))\<rparr>"

subsection \<open>The proxy's state\<close>

datatype AccelerationMode = SoftwareMode | OpenGLMode

datatype error = AssertionFailed | NullDereference | UseAfterFree

text \<open>
  The members of LayerTreeHostProxy that the replay touches, the two heaps, the messages
  sent to the web process, the number of \<open>updateViewport\<close> calls on the drawing area,
  and the reading of \<open>WTF::currentTime()\<close>. \<open>m_messagesToRenderer\<close> is the queue, oldest
  message first.
\<close>

record LayerTreeHostProxy =
  layerHeap :: "GraphicsLayer heap"
  storeHeap :: "LayerBackingStore heap"
  m_rootLayerID :: WebLayerID
  m_rootLayer :: "layer_ptr option"
  m_layers :: "WebLayerID \<rightharpoonup> layer_ptr"
  m_textureMapper :: "AccelerationMode option"
  m_directlyCompositedImages :: "ImageID \<rightharpoonup> ShareableBitmap"
  m_backingStoresWithPendingBuffers :: "store_ptr set"
  m_messagesToRenderer :: "LayerTreeMessageToRenderer list"
  sentMessages :: "LayerTreeHostMessage list"
  viewportUpdates :: nat
  currentTime :: cdouble

text \<open>The constructor: \<open>m_rootLayerID(0)\<close>, everything else empty.\<close>

definition LayerTreeHostProxy_new :: "cdouble \<Rightarrow> LayerTreeHostProxy" where
  "LayerTreeHostProxy_new now =
    \<lparr> layerHeap = [], storeHeap = [], m_rootLayerID = 0, m_rootLayer = None,
      m_layers = Map.empty, m_textureMapper = None,
      m_directlyCompositedImages = Map.empty, m_backingStoresWithPendingBuffers = {},
      m_messagesToRenderer = [], sentMessages = [], viewportUpdates = 0,
      currentTime = now \<rparr>"

definition setLayer :: "layer_ptr \<Rightarrow> (GraphicsLayer \<Rightarrow> GraphicsLayer) \<Rightarrow> LayerTreeHostProxy \<Rightarrow> LayerTreeHostProxy" where
  "setLayer p f s = s\<lparr>layerHeap := heap_upd p f (layerHeap s)\<rparr>"

definition send :: "LayerTreeHostMessage \<Rightarrow> LayerTreeHostProxy \<Rightarrow> LayerTreeHostProxy" where
  "send m s = s\<lparr>sentMessages := sentMessages s @ [m]\<rparr>"

text \<open>\<open>HashMap::add\<close> keeps the entry of a key that is present.\<close>

definition hash_add :: "('k \<rightharpoonup> 'v) \<Rightarrow> 'k \<Rightarrow> 'v \<Rightarrow> ('k \<rightharpoonup> 'v)" where
  "hash_add m k v = (case m k of None \<Rightarrow> m(k \<mapsto> v) | Some _ \<Rightarrow> m)"

text \<open>
  Modelled from the spec: \<open>layerByID\<close> and \<open>rootLayer\<close> are inline members declared in
  LayerTreeHostProxy.h, which is not under src/. The identifier 0 is reserved for "none"
  and resolves to no node; any other identifier resolves through \<open>m_layers\<close>.
\<close>

definition layerByID :: "LayerTreeHostProxy \<Rightarrow> WebLayerID \<Rightarrow> layer_ptr option" where
  "layerByID s i = (if i = InvalidWebLayerID then None else m_layers s i)"


subsection \<open>Creating, finding and deleting layers\<close>

definition createLayer :: "WebLayerID \<Rightarrow> LayerTreeHostProxy \<Rightarrow> layer_ptr \<times> LayerTreeHostProxy" where
  "createLayer layerID s =
    (let (p, h) = heap_alloc (newGraphicsLayer\<lparr>m_shouldUpdateBackingStoreFromLayer := False\<rparr>)
                    (layerHeap s)
     in (p, s\<lparr>layerHeap := h\<rparr>))"

definition ensureLayer :: "WebLayerID \<Rightarrow> LayerTreeHostProxy \<Rightarrow> LayerTreeHostProxy" where
  "ensureLayer i s =
    (if m_layers s i = None
     then (let (p, s1) = createLayer i s in s1\<lparr>m_layers := hash_add (m_layers s1) i p\<rparr>)
     else s)"

definition deleteLayer :: "WebLayerID \<Rightarrow> LayerTreeHostProxy \<Rightarrow> LayerTreeHostProxy" where
  "deleteLayer layerID s =
    (case layerByID s layerID of
       None \<Rightarrow> s
     | Some p \<Rightarrow>
        (let s1 = s\<lparr>layerHeap := removeFromParent p (layerHeap s)\<rparr>;
             s2 = s1\<lparr>m_layers := (m_layers s1)(layerID := None)\<rparr>
         in s2\<lparr>layerHeap := deleteGraphicsLayer p (layerHeap s2)\<rparr>))"

definition setRootLayerID :: "WebLayerID \<Rightarrow> LayerTreeHostProxy \<Rightarrow> error + LayerTreeHostProxy" where
  "setRootLayerID layerID s =
    (if layerID = m_rootLayerID s then Inr s
     else
       (let s1 = s\<lparr>m_rootLayerID := layerID\<rparr> in
        case m_rootLayer s1 of
          None \<Rightarrow> Inl NullDereference
        | Some r \<Rightarrow>
           (let s2 = s1\<lparr>layerHeap := removeAllChildren r (layerHeap s1)\<rparr> in
            if layerID = 0 then Inr s2
            else
              (case layerByID s2 layerID of
                 None \<Rightarrow> Inr s2
               | Some p \<Rightarrow> Inr (s2\<lparr>layerHeap := addChild r p (layerHeap s2)\<rparr>)))))"

subsection \<open>Tiles and images\<close>

definition getBackingStore :: "WebLayerID \<Rightarrow> LayerTreeHostProxy \<Rightarrow> error + (store_ptr \<times> LayerTreeHostProxy)" where
  "getBackingStore i s =
    (let s1 = ensureLayer i s in
     case layerByID s1 i of
       None \<Rightarrow> Inl NullDereference
     | Some p \<Rightarrow>
        (case heap_get (layerHeap s1) p of
           None \<Rightarrow> Inl UseAfterFree
         | Some layer \<Rightarrow>
            (case m_backingStore layer of
               Some b \<Rightarrow> Inr (b, s1)
             | None \<Rightarrow>
                (let (b, sh) = heap_alloc LayerBackingStore_create (storeHeap s1) in
                 Inr (b, setLayer p (\<lambda>l. l\<lparr>m_backingStore := Some b\<rparr>)
                           (s1\<lparr>storeHeap := sh\<rparr>))))))"

definition createTile :: "WebLayerID \<Rightarrow> TileID \<Rightarrow> cfloat \<Rightarrow> LayerTreeHostProxy \<Rightarrow> error + LayerTreeHostProxy" where
  "createTile layerID tileID scale s =
    (case getBackingStore layerID s of
       Inl e \<Rightarrow> Inl e
     | Inr (b, s1) \<Rightarrow>
        Inr (s1\<lparr>storeHeap := heap_upd b (LayerBackingStore_createTile tileID scale) (storeHeap s1)\<rparr>))"

definition removeTile :: "WebLayerID \<Rightarrow> TileID \<Rightarrow> LayerTreeHostProxy \<Rightarrow> error + LayerTreeHostProxy" where
  "removeTile layerID tileID s =
    (case getBackingStore layerID s of
       Inl e \<Rightarrow> Inl e
     | Inr (b, s1) \<Rightarrow>
        Inr (s1\<lparr>storeHeap := heap_upd b (LayerBackingStore_removeTile tileID) (storeHeap s1)\<rparr>))"

definition updateTile ::
  "WebLayerID \<Rightarrow> TileID \<Rightarrow> IntRect \<Rightarrow> IntRect \<Rightarrow> ShareableBitmap \<Rightarrow> LayerTreeHostProxy \<Rightarrow> error + LayerTreeHostProxy" where
  "updateTile layerID tileID sourceRect targetRect bitmap s =
    (case getBackingStore layerID s of
       Inl e \<Rightarrow> Inl e
     | Inr (b, s1) \<Rightarrow>
        (let s2 = s1\<lparr>storeHeap :=
                    heap_upd b (LayerBackingStore_updateTile tileID sourceRect targetRect bitmap)
                      (storeHeap s1)\<rparr>
         in Inr (s2\<lparr>m_backingStoresWithPendingBuffers :=
                      insert b (m_backingStoresWithPendingBuffers s2)\<rparr>)))"

text \<open>
  \<open>createImage\<close> builds a tiled backing store from the bitmap and stores it under the key
  with \<open>HashMap::set\<close>, which replaces an entry that is present; the registry keeps the
  pixel content.
\<close>

definition createImage :: "ImageID \<Rightarrow> ShareableBitmap \<Rightarrow> LayerTreeHostProxy \<Rightarrow> LayerTreeHostProxy" where
  "createImage imageID bitmap s =
    s\<lparr>m_directlyCompositedImages := (m_directlyCompositedImages s)(imageID \<mapsto> bitmap)\<rparr>"

definition destroyImage :: "ImageID \<Rightarrow> LayerTreeHostProxy \<Rightarrow> LayerTreeHostProxy" where
  "destroyImage imageID s =
    s\<lparr>m_directlyCompositedImages := (m_directlyCompositedImages s)(imageID := None)\<rparr>"

text \<open>
  \<open>assignImageToLayer\<close> asserts that the key is registered and then reads through the
  iterator; with the key absent the iterator is \<open>end()\<close>.
\<close>

definition assignImageToLayer :: "layer_ptr \<Rightarrow> ImageID \<Rightarrow> LayerTreeHostProxy \<Rightarrow> error + LayerTreeHostProxy" where
  "assignImageToLayer layer imageID s =
    (case m_directlyCompositedImages s imageID of
       None \<Rightarrow> Inl AssertionFailed
     | Some media \<Rightarrow> Inr (setLayer layer (\<lambda>l. l\<lparr>m_contentsMedia := Some media\<rparr>) s))"

text \<open>
  \<open>swapBuffers\<close> visits every backing store of the pending set (a hash set: the order of
  the visits is not fixed, and the visits touch different stores) and clears the set.
\<close>

definition swapBuffers :: "LayerTreeHostProxy \<Rightarrow> LayerTreeHostProxy" where
  "swapBuffers s =
    s\<lparr>storeHeap :=
         map (\<lambda>(b, cell). if b \<in> m_backingStoresWithPendingBuffers s
                           then map_option LayerBackingStore_swapBuffers cell else cell)
           (enumerate 0 (storeHeap s)),
       m_backingStoresWithPendingBuffers := {}\<rparr>"

text \<open>
  Modelled from the spec: \<open>syncCompositingState\<close> is a member of GraphicsLayerTextureMapper
  (not under src/). It commits the state of the nodes to the tree that is painted; the
  scene graph here is that one tree, so the committed state is the state.
\<close>

definition syncCompositingState :: "layer_ptr \<Rightarrow> LayerTreeHostProxy \<Rightarrow> LayerTreeHostProxy" where
  "syncCompositingState r s = s"

definition flushLayerChanges :: "LayerTreeHostProxy \<Rightarrow> error + LayerTreeHostProxy" where
  "flushLayerChanges s =
    (case m_rootLayer s of
       None \<Rightarrow> Inl NullDereference
     | Some r \<Rightarrow> Inr (send RenderNextFrame (swapBuffers (syncCompositingState r s))))"

text \<open>
  \<open>ensureRootLayer\<close> creates the root container once; it is not entered into
  \<open>m_layers\<close>. The texture mapper is created when there is none. The pointer to the
  texture mapper that the function hands to the container is not kept in the node.
\<close>

definition ensureRootLayer :: "LayerTreeHostProxy \<Rightarrow> LayerTreeHostProxy" where
  "ensureRootLayer s =
    (case m_rootLayer s of
       Some _ \<Rightarrow> s
     | None \<Rightarrow>
        (let (r, s1) = createLayer InvalidWebLayerID s;
             s2 = s1\<lparr>m_rootLayer := Some r\<rparr>;
             s3 = setLayer r (\<lambda>l. l\<lparr>m_masksToBounds := False\<rparr>) s2;
             s4 = setLayer r (\<lambda>l. l\<lparr>m_drawsContent := False\<rparr>) s3;
             s5 = setLayer r (\<lambda>l. l\<lparr>m_anchorPoint := (float_0, float_0, float_0)\<rparr>) s4;
             s6 = setLayer r (\<lambda>l. l\<lparr>m_size := (float_1, float_1)\<rparr>) s5
         in (case m_textureMapper s6 of
               None \<Rightarrow> s6\<lparr>m_textureMapper := Some OpenGLMode\<rparr>
             | Some _ \<Rightarrow> s6)))"

subsection \<open>syncLayerParameters\<close>

definition addAnimation :: "WebLayerAnimation \<Rightarrow> GraphicsLayer \<Rightarrow> GraphicsLayer" where
  "addAnimation anim l =
    l\<lparr>m_animations := m_animations l @
        [\<lparr> la_name = anim_name anim, la_keyframeList = anim_keyframeList anim,
           la_boxSize = anim_boxSize anim, la_animation = anim_animation anim,
           la_startTime = anim_startTime anim, la_pausedAt = None \<rparr>]\<rparr>"

definition removeAnimation :: "string \<Rightarrow> GraphicsLayer \<Rightarrow> GraphicsLayer" where
  "removeAnimation n l = l\<lparr>m_animations := filter (\<lambda>a. la_name a \<noteq> n) (m_animations l)\<rparr>"

definition pauseAnimation :: "string \<Rightarrow> cdouble \<Rightarrow> GraphicsLayer \<Rightarrow> GraphicsLayer" where
  "pauseAnimation n offset l =
    l\<lparr>m_animations :=
        map (\<lambda>a. if la_name a = n then a\<lparr>la_pausedAt := Some offset\<rparr> else a) (m_animations l)\<rparr>"

definition applyAnimation :: "layer_ptr \<Rightarrow> WebLayerAnimation \<Rightarrow> LayerTreeHostProxy \<Rightarrow> LayerTreeHostProxy" where
  "applyAnimation layer anim s =
    (case anim_operation anim of
       AddAnimation \<Rightarrow> setLayer layer (addAnimation anim) s
     | RemoveAnimation \<Rightarrow> setLayer layer (removeAnimation (anim_name anim)) s
     | PauseAnimation \<Rightarrow>
        (let offset = currentTime s - anim_startTime anim
         in setLayer layer (pauseAnimation (anim_name anim) offset) s))"

text \<open>
  The loop over \<open>layerInfo.children\<close>: each child identifier resolves to its node, or a new
  node is created and entered into \<open>m_layers\<close>; the result is the vector \<open>children\<close>.
\<close>

fun resolveChildren :: "WebLayerID list \<Rightarrow> LayerTreeHostProxy \<Rightarrow> layer_ptr list \<times> LayerTreeHostProxy" where
  "resolveChildren [] s = ([], s)"
| "resolveChildren (childID # rest) s =
    (case layerByID s childID of
       Some child \<Rightarrow>
        (let (cs, s') = resolveChildren rest s in (child # cs, s'))
     | None \<Rightarrow>
        (let (child, s1) = createLayer childID s;
             s2 = s1\<lparr>m_layers := hash_add (m_layers s1) childID child\<rparr>;
             (cs, s') = resolveChildren rest s2
         in (child # cs, s')))"

definition needsToUpdateImageTiles :: "WebLayerInfo \<Rightarrow> GraphicsLayer \<Rightarrow> bool" where
  "needsToUpdateImageTiles layerInfo layer \<longleftrightarrow>
    info_imageIsUpdated layerInfo \<or>
    (info_contentsRect layerInfo \<noteq> m_contentsRect layer \<and> info_imageBackingStoreID layerInfo \<noteq> 0)"

definition syncLayerParameters :: "WebLayerInfo \<Rightarrow> LayerTreeHostProxy \<Rightarrow> error + LayerTreeHostProxy" where
  "syncLayerParameters layerInfo s =
    (let i = info_id layerInfo; s1 = ensureLayer i s in
     case m_layers s1 i of
       None \<Rightarrow> Inl NullDereference
     | Some p \<Rightarrow>
        (case heap_get (layerHeap s1) p of
           None \<Rightarrow> Inl UseAfterFree
         | Some layer \<Rightarrow>
            (let needsUpdate = needsToUpdateImageTiles layerInfo layer;
                 s2 = setLayer p (\<lambda>l. l\<lparr>m_name := info_name layerInfo\<rparr>) s1;
                 s3 = setLayer p (\<lambda>l. l\<lparr>m_replicaLayer := layerByID s2 (info_replica layerInfo)\<rparr>) s2;
                 s4 = setLayer p (\<lambda>l. l\<lparr>m_maskLayer := layerByID s3 (info_mask layerInfo)\<rparr>) s3;
                 s5 = setLayer p (\<lambda>l. l\<lparr>m_position := info_pos layerInfo,
                                        m_size := info_size layerInfo,
                                        m_transform := info_transform layerInfo,
                                        m_anchorPoint := info_anchorPoint layerInfo,
                                        m_childrenTransform := info_childrenTransform layerInfo,
                                        m_backfaceVisibility := info_backfaceVisible layerInfo,
                                        m_contentsOpaque := info_contentsOpaque layerInfo,
                                        m_contentsRect := info_contentsRect layerInfo,
                                        m_drawsContent := info_drawsContent layerInfo\<rparr>) s4
             in case (if needsUpdate
                      then assignImageToLayer p (info_imageBackingStoreID layerInfo) s5
                      else Inr s5) of
                  Inl e \<Rightarrow> Inl e
                | Inr s6 \<Rightarrow>
                   (let s7 = setLayer p (\<lambda>l. l\<lparr>m_masksToBounds :=
                                 (if info_isRootLayer layerInfo then False
                                  else info_masksToBounds layerInfo),
                                 m_opacity := info_opacity layerInfo,
                                 m_preserves3D := info_preserves3D layerInfo\<rparr>) s6;
                        (children, s8) = resolveChildren (info_children layerInfo) s7;
                        s9 = s8\<lparr>layerHeap := setChildren p children (layerHeap s8)\<rparr>;
                        s10 = fold (applyAnimation p) (info_animations layerInfo) s9
                    in if info_isRootLayer layerInfo \<and> m_rootLayerID s10 \<noteq> i
                       then setRootLayerID i s10 else Inr s10))))"

subsection \<open>The queue and the replay\<close>

text \<open>
  Modelled from the spec: \<open>MessageQueue\<close> (wtf/MessageQueue.h is not under src/) is a
  strictly ordered sequence; \<open>append\<close> adds at the end, \<open>tryGetMessage\<close> takes the oldest
  message and yields nothing on an empty queue.
\<close>

definition append_message :: "'m list \<Rightarrow> 'm \<Rightarrow> 'm list" where
  "append_message q m = q @ [m]"

definition tryGetMessage :: "'m list \<Rightarrow> ('m \<times> 'm list) option" where
  "tryGetMessage q = (case q of [] \<Rightarrow> None | m # rest \<Rightarrow> Some (m, rest))"

definition updateViewport :: "LayerTreeHostProxy \<Rightarrow> LayerTreeHostProxy" where
  "updateViewport s = s\<lparr>viewportUpdates := Suc (viewportUpdates s)\<rparr>"

definition pushUpdateToQueue :: "LayerTreeMessageToRenderer \<Rightarrow> LayerTreeHostProxy \<Rightarrow> LayerTreeHostProxy" where
  "pushUpdateToQueue message s =
    updateViewport (s\<lparr>m_messagesToRenderer := append_message (m_messagesToRenderer s) message\<rparr>)"

text \<open>The body of the \<open>switch\<close> in \<open>syncRemoteContent\<close>, in the order of its cases.\<close>

fun applyMessage :: "LayerTreeMessageToRenderer \<Rightarrow> LayerTreeHostProxy \<Rightarrow> error + LayerTreeHostProxy" where
  "applyMessage (SetRootLayer layerID) s = setRootLayerID layerID s"
| "applyMessage (DeleteLayer layerID) s = Inr (deleteLayer layerID s)"
| "applyMessage (SyncLayerParameters layerInfo) s = syncLayerParameters layerInfo s"
| "applyMessage (CreateTile layerID remoteTileID scale) s = createTile layerID remoteTileID scale s"
| "applyMessage (RemoveTile layerID remoteTileID) s = removeTile layerID remoteTileID s"
| "applyMessage (UpdateTile layerID remoteTileID sourceRect targetRect bitmap) s =
     updateTile layerID remoteTileID sourceRect targetRect bitmap s"
| "applyMessage (CreateImage imageID bitmap) s = Inr (createImage imageID bitmap s)"
| "applyMessage (DestroyImage imageID) s = Inr (destroyImage imageID s)"
| "applyMessage FlushLayerChanges s = flushLayerChanges s"

subsection \<open>What each function leaves unchanged\<close>

lemma setLayer_frame [simp]:
  "storeHeap (setLayer p f s) = storeHeap s"
  "m_rootLayerID (setLayer p f s) = m_rootLayerID s"
  "m_rootLayer (setLayer p f s) = m_rootLayer s"
  "m_layers (setLayer p f s) = m_layers s"
  "m_textureMapper (setLayer p f s) = m_textureMapper s"
  "m_directlyCompositedImages (setLayer p f s) = m_directlyCompositedImages s"
  "m_backingStoresWithPendingBuffers (setLayer p f s) = m_backingStoresWithPendingBuffers s"
  "m_messagesToRenderer (setLayer p f s) = m_messagesToRenderer s"
  "sentMessages (setLayer p f s) = sentMessages s"
  "viewportUpdates (setLayer p f s) = viewportUpdates s"
  "currentTime (setLayer p f s) = currentTime s"
  "layerHeap (setLayer p f s) = heap_upd p f (layerHeap s)"
  by (simp_all add: setLayer_def)

lemma layerByID_setLayer [simp]: "layerByID (setLayer p f s) = layerByID s"
  by (rule ext) (simp add: layerByID_def)

lemma createLayer_frame [simp]:
  "storeHeap (snd (createLayer i s)) = storeHeap s"
  "m_rootLayerID (snd (createLayer i s)) = m_rootLayerID s"
  "m_rootLayer (snd (createLayer i s)) = m_rootLayer s"
  "m_layers (snd (createLayer i s)) = m_layers s"
  "m_textureMapper (snd (createLayer i s)) = m_textureMapper s"
  "m_directlyCompositedImages (snd (createLayer i s)) = m_directlyCompositedImages s"
  "m_backingStoresWithPendingBuffers (snd (createLayer i s)) = m_backingStoresWithPendingBuffers s"
  "m_messagesToRenderer (snd (createLayer i s)) = m_messagesToRenderer s"
  "sentMessages (snd (createLayer i s)) = sentMessages s"
  "viewportUpdates (snd (createLayer i s)) = viewportUpdates s"
  "currentTime (snd (createLayer i s)) = currentTime s"
  "fst (createLayer i s) = length (layerHeap s)"
  "layerHeap (snd (createLayer i s)) =
     layerHeap s @ [Some (newGraphicsLayer\<lparr>m_shouldUpdateBackingStoreFromLayer := False\<rparr>)]"
  by (simp_all add: createLayer_def heap_alloc_def)

lemma ensureLayer_frame [simp]:
  "storeHeap (ensureLayer i s) = storeHeap s"
  "m_rootLayerID (ensureLayer i s) = m_rootLayerID s"
  "m_rootLayer (ensureLayer i s) = m_rootLayer s"
  "m_textureMapper (ensureLayer i s) = m_textureMapper s"
  "m_directlyCompositedImages (ensureLayer i s) = m_directlyCompositedImages s"
  "m_backingStoresWithPendingBuffers (ensureLayer i s) = m_backingStoresWithPendingBuffers s"
  "m_messagesToRenderer (ensureLayer i s) = m_messagesToRenderer s"
  "sentMessages (ensureLayer i s) = sentMessages s"
  "viewportUpdates (ensureLayer i s) = viewportUpdates s"
  "currentTime (ensureLayer i s) = currentTime s"
  by (simp_all add: ensureLayer_def split_beta)

lemma deleteLayer_frame [simp]:
  "storeHeap (deleteLayer i s) = storeHeap s"
  "m_rootLayerID (deleteLayer i s) = m_rootLayerID s"
  "m_rootLayer (deleteLayer i s) = m_rootLayer s"
  "m_textureMapper (deleteLayer i s) = m_textureMapper s"
  "m_directlyCompositedImages (deleteLayer i s) = m_directlyCompositedImages s"
  "m_backingStoresWithPendingBuffers (deleteLayer i s) = m_backingStoresWithPendingBuffers s"
  "m_messagesToRenderer (deleteLayer i s) = m_messagesToRenderer s"
  "sentMessages (deleteLayer i s) = sentMessages s"
  "viewportUpdates (deleteLayer i s) = viewportUpdates s"
  "currentTime (deleteLayer i s) = currentTime s"
  by (simp_all add: deleteLayer_def Let_def split: option.split)

lemma setRootLayerID_frame:
  assumes "setRootLayerID i s = Inr s'"
  shows "storeHeap s' = storeHeap s"
    "m_rootLayer s' = m_rootLayer s"
    "m_layers s' = m_layers s"
    "m_textureMapper s' = m_textureMapper s"
    "m_directlyCompositedImages s' = m_directlyCompositedImages s"
    "m_backingStoresWithPendingBuffers s' = m_backingStoresWithPendingBuffers s"
    "m_messagesToRenderer s' = m_messagesToRenderer s"
    "sentMessages s' = sentMessages s"
    "viewportUpdates s' = viewportUpdates s"
    "currentTime s' = currentTime s"
    "m_rootLayerID s' = i"
  using assms
  by (auto simp: setRootLayerID_def Let_def layerByID_def split: if_splits option.splits)


lemma getBackingStore_frame:
  assumes "getBackingStore i s = Inr (b, s')"
  shows "m_rootLayerID s' = m_rootLayerID s"
    "m_rootLayer s' = m_rootLayer s"
    "m_textureMapper s' = m_textureMapper s"
    "m_directlyCompositedImages s' = m_directlyCompositedImages s"
    "m_backingStoresWithPendingBuffers s' = m_backingStoresWithPendingBuffers s"
    "m_messagesToRenderer s' = m_messagesToRenderer s"
    "sentMessages s' = sentMessages s"
    "viewportUpdates s' = viewportUpdates s"
    "currentTime s' = currentTime s"
    "m_layers s' = m_layers (ensureLayer i s)"
  using assms
  by (auto simp: getBackingStore_def Let_def heap_alloc_def split: option.splits)

lemma createTile_frame:
  assumes "createTile i t sc s = Inr s'"
  shows "m_rootLayerID s' = m_rootLayerID s"
    "m_rootLayer s' = m_rootLayer s"
    "m_textureMapper s' = m_textureMapper s"
    "m_directlyCompositedImages s' = m_directlyCompositedImages s"
    "m_backingStoresWithPendingBuffers s' = m_backingStoresWithPendingBuffers s"
    "m_messagesToRenderer s' = m_messagesToRenderer s"
    "sentMessages s' = sentMessages s"
    "viewportUpdates s' = viewportUpdates s"
    "currentTime s' = currentTime s"
    "m_layers s' = m_layers (ensureLayer i s)"
  using assms
  by (auto simp: createTile_def split: sum.splits dest: getBackingStore_frame)

lemma removeTile_frame:
  assumes "removeTile i t s = Inr s'"
  shows "m_rootLayerID s' = m_rootLayerID s"
    "m_rootLayer s' = m_rootLayer s"
    "m_textureMapper s' = m_textureMapper s"
    "m_directlyCompositedImages s' = m_directlyCompositedImages s"
    "m_backingStoresWithPendingBuffers s' = m_backingStoresWithPendingBuffers s"
    "m_messagesToRenderer s' = m_messagesToRenderer s"
    "sentMessages s' = sentMessages s"
    "viewportUpdates s' = viewportUpdates s"
    "currentTime s' = currentTime s"
    "m_layers s' = m_layers (ensureLayer i s)"
  using assms
  by (auto simp: removeTile_def split: sum.splits dest: getBackingStore_frame)

lemma updateTile_frame:
  assumes "updateTile i t sr tr bm s = Inr s'"
  shows "m_rootLayerID s' = m_rootLayerID s"
    "m_rootLayer s' = m_rootLayer s"
    "m_textureMapper s' = m_textureMapper s"
    "m_directlyCompositedImages s' = m_directlyCompositedImages s"
    "m_messagesToRenderer s' = m_messagesToRenderer s"
    "sentMessages s' = sentMessages s"
    "viewportUpdates s' = viewportUpdates s"
    "currentTime s' = currentTime s"
    "m_layers s' = m_layers (ensureLayer i s)"
    "m_backingStoresWithPendingBuffers s \<subseteq> m_backingStoresWithPendingBuffers s'"
  using assms
  by (auto simp: updateTile_def Let_def split: sum.splits dest: getBackingStore_frame)

lemma createImage_frame [simp]:
  "layerHeap (createImage k bm s) = layerHeap s"
  "storeHeap (createImage k bm s) = storeHeap s"
  "m_rootLayerID (createImage k bm s) = m_rootLayerID s"
  "m_rootLayer (createImage k bm s) = m_rootLayer s"
  "m_layers (createImage k bm s) = m_layers s"
  "m_textureMapper (createImage k bm s) = m_textureMapper s"
  "m_backingStoresWithPendingBuffers (createImage k bm s) = m_backingStoresWithPendingBuffers s"
  "m_messagesToRenderer (createImage k bm s) = m_messagesToRenderer s"
  "sentMessages (createImage k bm s) = sentMessages s"
  "viewportUpdates (createImage k bm s) = viewportUpdates s"
  "currentTime (createImage k bm s) = currentTime s"
  by (simp_all add: createImage_def)

lemma destroyImage_frame [simp]:
  "layerHeap (destroyImage k s) = layerHeap s"
  "storeHeap (destroyImage k s) = storeHeap s"
  "m_rootLayerID (destroyImage k s) = m_rootLayerID s"
  "m_rootLayer (destroyImage k s) = m_rootLayer s"
  "m_layers (destroyImage k s) = m_layers s"
  "m_textureMapper (destroyImage k s) = m_textureMapper s"
  "m_backingStoresWithPendingBuffers (destroyImage k s) = m_backingStoresWithPendingBuffers s"
  "m_messagesToRenderer (destroyImage k s) = m_messagesToRenderer s"
  "sentMessages (destroyImage k s) = sentMessages s"
  "viewportUpdates (destroyImage k s) = viewportUpdates s"
  "currentTime (destroyImage k s) = currentTime s"
  by (simp_all add: destroyImage_def)

lemma assignImageToLayer_eq:
  "assignImageToLayer p k s = Inr s' \<Longrightarrow>
     \<exists>media. m_directlyCompositedImages s k = Some media \<and>
       s' = setLayer p (\<lambda>l. l\<lparr>m_contentsMedia := Some media\<rparr>) s"
  by (auto simp: assignImageToLayer_def split: option.splits)

lemma swapBuffers_frame [simp]:
  "layerHeap (swapBuffers s) = layerHeap s"
  "m_rootLayerID (swapBuffers s) = m_rootLayerID s"
  "m_rootLayer (swapBuffers s) = m_rootLayer s"
  "m_layers (swapBuffers s) = m_layers s"
  "m_textureMapper (swapBuffers s) = m_textureMapper s"
  "m_directlyCompositedImages (swapBuffers s) = m_directlyCompositedImages s"
  "m_backingStoresWithPendingBuffers (swapBuffers s) = {}"
  "m_messagesToRenderer (swapBuffers s) = m_messagesToRenderer s"
  "sentMessages (swapBuffers s) = sentMessages s"
  "viewportUpdates (swapBuffers s) = viewportUpdates s"
  "currentTime (swapBuffers s) = currentTime s"
  by (simp_all add: swapBuffers_def)

lemma send_frame [simp]:
  "layerHeap (send m s) = layerHeap s"
  "storeHeap (send m s) = storeHeap s"
  "m_rootLayerID (send m s) = m_rootLayerID s"
  "m_rootLayer (send m s) = m_rootLayer s"
  "m_layers (send m s) = m_layers s"
  "m_textureMapper (send m s) = m_textureMapper s"
  "m_directlyCompositedImages (send m s) = m_directlyCompositedImages s"
  "m_backingStoresWithPendingBuffers (send m s) = m_backingStoresWithPendingBuffers s"
  "m_messagesToRenderer (send m s) = m_messagesToRenderer s"
  "sentMessages (send m s) = sentMessages s @ [m]"
  "viewportUpdates (send m s) = viewportUpdates s"
  "currentTime (send m s) = currentTime s"
  by (simp_all add: send_def)

lemma flushLayerChanges_eq:
  "flushLayerChanges s = Inr s' \<Longrightarrow> s' = send RenderNextFrame (swapBuffers s)"
  by (auto simp: flushLayerChanges_def syncCompositingState_def split: option.splits)

lemma resolveChildren_frame [simp]:
  "storeHeap (snd (resolveChildren cs s)) = storeHeap s"
  "m_rootLayerID (snd (resolveChildren cs s)) = m_rootLayerID s"
  "m_rootLayer (snd (resolveChildren cs s)) = m_rootLayer s"
  "m_textureMapper (snd (resolveChildren cs s)) = m_textureMapper s"
  "m_directlyCompositedImages (snd (resolveChildren cs s)) = m_directlyCompositedImages s"
  "m_backingStoresWithPendingBuffers (snd (resolveChildren cs s)) = m_backingStoresWithPendingBuffers s"
  "m_messagesToRenderer (snd (resolveChildren cs s)) = m_messagesToRenderer s"
  "sentMessages (snd (resolveChildren cs s)) = sentMessages s"
  "viewportUpdates (snd (resolveChildren cs s)) = viewportUpdates s"
  "currentTime (snd (resolveChildren cs s)) = currentTime s"
  by (induction cs arbitrary: s; simp add: split_beta Let_def split: option.split)+

lemma applyAnimation_frame [simp]:
  "storeHeap (applyAnimation p a s) = storeHeap s"
  "m_rootLayerID (applyAnimation p a s) = m_rootLayerID s"
  "m_rootLayer (applyAnimation p a s) = m_rootLayer s"
  "m_layers (applyAnimation p a s) = m_layers s"
  "m_textureMapper (applyAnimation p a s) = m_textureMapper s"
  "m_directlyCompositedImages (applyAnimation p a s) = m_directlyCompositedImages s"
  "m_backingStoresWithPendingBuffers (applyAnimation p a s) = m_backingStoresWithPendingBuffers s"
  "m_messagesToRenderer (applyAnimation p a s) = m_messagesToRenderer s"
  "sentMessages (applyAnimation p a s) = sentMessages s"
  "viewportUpdates (applyAnimation p a s) = viewportUpdates s"
  "currentTime (applyAnimation p a s) = currentTime s"
  by (simp_all add: applyAnimation_def Let_def split: Operation.split)

lemma fold_applyAnimation_frame [simp]:
  "storeHeap (fold (applyAnimation p) as s) = storeHeap s"
  "m_rootLayerID (fold (applyAnimation p) as s) = m_rootLayerID s"
  "m_rootLayer (fold (applyAnimation p) as s) = m_rootLayer s"
  "m_layers (fold (applyAnimation p) as s) = m_layers s"
  "m_textureMapper (fold (applyAnimation p) as s) = m_textureMapper s"
  "m_directlyCompositedImages (fold (applyAnimation p) as s) = m_directlyCompositedImages s"
  "m_backingStoresWithPendingBuffers (fold (applyAnimation p) as s) = m_backingStoresWithPendingBuffers s"
  "m_messagesToRenderer (fold (applyAnimation p) as s) = m_messagesToRenderer s"
  "sentMessages (fold (applyAnimation p) as s) = sentMessages s"
  "viewportUpdates (fold (applyAnimation p) as s) = viewportUpdates s"
  "currentTime (fold (applyAnimation p) as s) = currentTime s"
  by (induction as arbitrary: s; simp)+

lemma syncLayerParameters_frame:
  assumes "syncLayerParameters info s = Inr s'"
  shows "storeHeap s' = storeHeap s"
    "m_rootLayer s' = m_rootLayer s"
    "m_textureMapper s' = m_textureMapper s"
    "m_directlyCompositedImages s' = m_directlyCompositedImages s"
    "m_backingStoresWithPendingBuffers s' = m_backingStoresWithPendingBuffers s"
    "m_messagesToRenderer s' = m_messagesToRenderer s"
    "sentMessages s' = sentMessages s"
    "viewportUpdates s' = viewportUpdates s"
    "currentTime s' = currentTime s"
  using assms
  by (auto simp: syncLayerParameters_def Let_def split_beta
      split: option.splits if_splits sum.splits
      dest!: assignImageToLayer_eq dest: setRootLayerID_frame)

lemma applyMessage_frame:
  assumes "applyMessage m s = Inr s'"
  shows "m_rootLayer s' = m_rootLayer s"
    "m_textureMapper s' = m_textureMapper s"
    "m_messagesToRenderer s' = m_messagesToRenderer s"
    "viewportUpdates s' = viewportUpdates s"
    "currentTime s' = currentTime s"
  using assms
  by (cases m; auto dest: setRootLayerID_frame syncLayerParameters_frame createTile_frame
        removeTile_frame updateTile_frame dest!: flushLayerChanges_eq)+


text \<open>
  The \<open>while\<close> loop of \<open>syncRemoteContent\<close>: take the oldest message, apply it, go on
  until \<open>tryGetMessage\<close> yields nothing. Applying a message leaves the queue alone, so
  the loop ends.
\<close>

function syncLoop :: "LayerTreeHostProxy \<Rightarrow> error + LayerTreeHostProxy" where
  "syncLoop s =
    (case tryGetMessage (m_messagesToRenderer s) of
       None \<Rightarrow> Inr s
     | Some (nextMessage, rest) \<Rightarrow>
        (case applyMessage nextMessage (s\<lparr>m_messagesToRenderer := rest\<rparr>) of
           Inl e \<Rightarrow> Inl e
         | Inr s' \<Rightarrow> syncLoop s'))"
  by pat_completeness auto
termination
proof (relation "measure (\<lambda>s. length (m_messagesToRenderer s))")
  show "wf (measure (\<lambda>s. length (m_messagesToRenderer s)))" by simp
next
  fix s :: LayerTreeHostProxy and x2 nextMessage rest s'
  assume a: "tryGetMessage (m_messagesToRenderer s) = Some x2" "(nextMessage, rest) = x2"
    and b: "applyMessage nextMessage (s\<lparr>m_messagesToRenderer := rest\<rparr>) = Inr s'"
  from a have "m_messagesToRenderer s = nextMessage # rest"
    by (auto simp: tryGetMessage_def split: list.splits)
  moreover from applyMessage_frame(3)[OF b] have "m_messagesToRenderer s' = rest" by simp
  ultimately show "(s', s) \<in> measure (\<lambda>s. length (m_messagesToRenderer s))" by simp
qed

definition syncRemoteContent :: "LayerTreeHostProxy \<Rightarrow> error + LayerTreeHostProxy" where
  "syncRemoteContent s = syncLoop (ensureRootLayer s)"

text \<open>Applying a list of messages one at a time, first to last.\<close>

fun applyAll :: "LayerTreeMessageToRenderer list \<Rightarrow> LayerTreeHostProxy \<Rightarrow> error + LayerTreeHostProxy" where
  "applyAll [] s = Inr s"
| "applyAll (m # ms) s = (case applyMessage m s of Inl e \<Rightarrow> Inl e | Inr s' \<Rightarrow> applyAll ms s')"

definition withQueue :: "LayerTreeMessageToRenderer list \<Rightarrow> LayerTreeHostProxy \<Rightarrow> LayerTreeHostProxy" where
  "withQueue q s = s\<lparr>m_messagesToRenderer := q\<rparr>"

lemma withQueue_simps [simp]:
  "layerHeap (withQueue q s) = layerHeap s"
  "storeHeap (withQueue q s) = storeHeap s"
  "m_rootLayerID (withQueue q s) = m_rootLayerID s"
  "m_rootLayer (withQueue q s) = m_rootLayer s"
  "m_layers (withQueue q s) = m_layers s"
  "m_textureMapper (withQueue q s) = m_textureMapper s"
  "m_directlyCompositedImages (withQueue q s) = m_directlyCompositedImages s"
  "m_backingStoresWithPendingBuffers (withQueue q s) = m_backingStoresWithPendingBuffers s"
  "m_messagesToRenderer (withQueue q s) = q"
  "sentMessages (withQueue q s) = sentMessages s"
  "viewportUpdates (withQueue q s) = viewportUpdates s"
  "currentTime (withQueue q s) = currentTime s"
  "withQueue q (withQueue q' s) = withQueue q s"
  by (simp_all add: withQueue_def)

lemma layerByID_withQueue [simp]: "layerByID (withQueue q s) = layerByID s"
  by (rule ext) (simp add: layerByID_def)

lemma withQueue_push:
  "\<And>f. (withQueue q s)\<lparr>layerHeap := f\<rparr> = withQueue q (s\<lparr>layerHeap := f\<rparr>)"
  "\<And>f. (withQueue q s)\<lparr>storeHeap := f\<rparr> = withQueue q (s\<lparr>storeHeap := f\<rparr>)"
  "\<And>f. (withQueue q s)\<lparr>m_rootLayerID := f\<rparr> = withQueue q (s\<lparr>m_rootLayerID := f\<rparr>)"
  "\<And>f. (withQueue q s)\<lparr>m_rootLayer := f\<rparr> = withQueue q (s\<lparr>m_rootLayer := f\<rparr>)"
  "\<And>f. (withQueue q s)\<lparr>m_layers := f\<rparr> = withQueue q (s\<lparr>m_layers := f\<rparr>)"
  "\<And>f. (withQueue q s)\<lparr>m_textureMapper := f\<rparr> = withQueue q (s\<lparr>m_textureMapper := f\<rparr>)"
  "\<And>f. (withQueue q s)\<lparr>m_directlyCompositedImages := f\<rparr> = withQueue q (s\<lparr>m_directlyCompositedImages := f\<rparr>)"
  "\<And>f. (withQueue q s)\<lparr>m_backingStoresWithPendingBuffers := f\<rparr> = withQueue q (s\<lparr>m_backingStoresWithPendingBuffers := f\<rparr>)"
  "\<And>f. (withQueue q s)\<lparr>sentMessages := f\<rparr> = withQueue q (s\<lparr>sentMessages := f\<rparr>)"
  by (simp_all add: withQueue_def)

lemma setLayer_withQueue: "setLayer p f (withQueue q s) = withQueue q (setLayer p f s)"
  by (simp add: setLayer_def withQueue_push)

lemma createLayer_withQueue:
  "createLayer i (withQueue q s) = apsnd (withQueue q) (createLayer i s)"
  by (simp add: createLayer_def withQueue_push split_beta)

lemma ensureLayer_withQueue: "ensureLayer i (withQueue q s) = withQueue q (ensureLayer i s)"
  by (simp add: ensureLayer_def createLayer_withQueue split_beta withQueue_push)

lemma deleteLayer_withQueue: "deleteLayer i (withQueue q s) = withQueue q (deleteLayer i s)"
  by (simp add: deleteLayer_def Let_def withQueue_push split: option.split)

lemma setRootLayerID_withQueue:
  "setRootLayerID i (withQueue q s) = map_sum id (withQueue q) (setRootLayerID i s)"
  by (simp add: setRootLayerID_def Let_def layerByID_def withQueue_push split: option.split)

lemma getBackingStore_withQueue:
  "getBackingStore i (withQueue q s) = map_sum id (apsnd (withQueue q)) (getBackingStore i s)"
  by (simp add: getBackingStore_def Let_def ensureLayer_withQueue split_beta
        setLayer_withQueue withQueue_push split: option.split)

lemma createTile_withQueue:
  "createTile i t sc (withQueue q s) = map_sum id (withQueue q) (createTile i t sc s)"
  by (simp add: createTile_def getBackingStore_withQueue withQueue_push split: sum.split)

lemma removeTile_withQueue:
  "removeTile i t (withQueue q s) = map_sum id (withQueue q) (removeTile i t s)"
  by (simp add: removeTile_def getBackingStore_withQueue withQueue_push split: sum.split)

lemma updateTile_withQueue:
  "updateTile i t sr tr bm (withQueue q s) = map_sum id (withQueue q) (updateTile i t sr tr bm s)"
  by (simp add: updateTile_def getBackingStore_withQueue Let_def withQueue_push split: sum.split)

lemma assignImageToLayer_withQueue:
  "assignImageToLayer p k (withQueue q s) = map_sum id (withQueue q) (assignImageToLayer p k s)"
  by (simp add: assignImageToLayer_def setLayer_withQueue split: option.split)

lemma swapBuffers_withQueue: "swapBuffers (withQueue q s) = withQueue q (swapBuffers s)"
  by (simp add: swapBuffers_def withQueue_push)

lemma send_withQueue: "send m (withQueue q s) = withQueue q (send m s)"
  by (simp add: send_def withQueue_push)

lemma flushLayerChanges_withQueue:
  "flushLayerChanges (withQueue q s) = map_sum id (withQueue q) (flushLayerChanges s)"
  by (simp add: flushLayerChanges_def syncCompositingState_def swapBuffers_withQueue
        send_withQueue split: option.split)

lemma resolveChildren_withQueue:
  "resolveChildren cs (withQueue q s) = apsnd (withQueue q) (resolveChildren cs s)"
proof (induction cs arbitrary: s)
  case Nil
  show ?case by simp
next
  case (Cons c cs)
  show ?case
    by (simp add: Cons.IH createLayer_withQueue split_beta Let_def withQueue_push
          split: option.split)
qed

lemma applyAnimation_withQueue:
  "applyAnimation p a (withQueue q s) = withQueue q (applyAnimation p a s)"
  by (simp add: applyAnimation_def Let_def setLayer_withQueue split: Operation.split)

lemma fold_applyAnimation_withQueue:
  "fold (applyAnimation p) as (withQueue q s) = withQueue q (fold (applyAnimation p) as s)"
  by (induction as arbitrary: s) (simp_all add: applyAnimation_withQueue)

lemma syncLayerParameters_withQueue:
  "syncLayerParameters info (withQueue q s) = map_sum id (withQueue q) (syncLayerParameters info s)"
  by (auto simp: syncLayerParameters_def Let_def ensureLayer_withQueue setLayer_withQueue
        assignImageToLayer_withQueue resolveChildren_withQueue split_beta withQueue_push
        fold_applyAnimation_withQueue setRootLayerID_withQueue
        split: option.split sum.split)

lemma applyMessage_withQueue:
  "applyMessage m (withQueue q s) = map_sum id (withQueue q) (applyMessage m s)"
proof (cases m)
  case (CreateImage k bm)
  then show ?thesis by (simp add: createImage_def withQueue_push)
next
  case (DestroyImage k)
  then show ?thesis by (simp add: destroyImage_def withQueue_push)
qed (simp_all add: setRootLayerID_withQueue deleteLayer_withQueue syncLayerParameters_withQueue
      createTile_withQueue removeTile_withQueue updateTile_withQueue flushLayerChanges_withQueue)

lemma applyAll_withQueue:
  "applyAll ms (withQueue q s) = map_sum id (withQueue q) (applyAll ms s)"
  by (induction ms arbitrary: s) (auto simp: applyMessage_withQueue split: sum.splits)

lemma syncLoop_applyAll:
  "syncLoop s = applyAll (m_messagesToRenderer s) (withQueue [] s)"
proof (induction "m_messagesToRenderer s" arbitrary: s)
  case Nil
  then have "withQueue [] s = s" by (simp add: withQueue_def)
  with Nil show ?case by (simp add: tryGetMessage_def)
next
  case (Cons m ms)
  have q: "m_messagesToRenderer s = m # ms" using Cons.hyps(2) by simp
  have w: "s\<lparr>m_messagesToRenderer := ms\<rparr> = withQueue ms s" by (simp add: withQueue_def)
  show ?case
  proof (cases "applyMessage m s")
    case (Inl e)
    then show ?thesis
      by (subst syncLoop.simps) (simp add: q tryGetMessage_def w applyMessage_withQueue)
  next
    case (Inr s1)
    have "m_messagesToRenderer (withQueue ms s1) = ms" by simp
    then have IH: "syncLoop (withQueue ms s1) = applyAll ms (withQueue [] (withQueue ms s1))"
      using Cons.hyps(1)[of "withQueue ms s1"] by simp
    show ?thesis
      by (subst syncLoop.simps)
         (simp add: q tryGetMessage_def w applyMessage_withQueue Inr IH applyAll_withQueue
            del: syncLoop.simps)
  qed
qed

lemma ensureRootLayer_frame [simp]:
  "storeHeap (ensureRootLayer s) = storeHeap s"
  "m_rootLayerID (ensureRootLayer s) = m_rootLayerID s"
  "m_layers (ensureRootLayer s) = m_layers s"
  "m_directlyCompositedImages (ensureRootLayer s) = m_directlyCompositedImages s"
  "m_backingStoresWithPendingBuffers (ensureRootLayer s) = m_backingStoresWithPendingBuffers s"
  "m_messagesToRenderer (ensureRootLayer s) = m_messagesToRenderer s"
  "sentMessages (ensureRootLayer s) = sentMessages s"
  "viewportUpdates (ensureRootLayer s) = viewportUpdates s"
  "currentTime (ensureRootLayer s) = currentTime s"
  by (simp_all add: ensureRootLayer_def Let_def split_beta split: option.split)

lemma applyAll_queue:
  "applyAll ms s = Inr s' \<Longrightarrow> m_messagesToRenderer s' = m_messagesToRenderer s"
  by (induction ms arbitrary: s) (auto split: sum.splits dest: applyMessage_frame(3))

lemma fold_pushUpdateToQueue_queue:
  "m_messagesToRenderer (fold pushUpdateToQueue cmds s) = m_messagesToRenderer s @ cmds"
  by (induction cmds arbitrary: s)
     (simp_all add: pushUpdateToQueue_def updateViewport_def append_message_def)

lemma heap_get_Nil [simp]: "heap_get [] p = None"
  by (simp add: heap_get_def)

lemma heap_get_append1 [simp]:
  "heap_get (h @ [x]) p = (if p = length h then x else heap_get h p)"
  by (auto simp: heap_get_def nth_append)

lemma heap_get_length [simp]: "heap_get h (length h) = None"
  by (simp add: heap_get_def)

lemma heap_get_Some_less: "heap_get h p = Some v \<Longrightarrow> p < length h"
  by (auto simp: heap_get_def split: if_splits)

lemma length_heap_upd [simp]: "length (heap_upd p f h) = length h"
  by (simp add: heap_upd_def split: option.split)

lemma heap_get_upd [simp]:
  "heap_get (heap_upd p f h) q = (if q = p then map_option f (heap_get h p) else heap_get h q)"
  by (auto simp: heap_upd_def heap_get_def split: option.splits)

lemma length_heap_free [simp]: "length (heap_free p h) = length h"
  by (simp add: heap_free_def)

lemma heap_get_free [simp]:
  "heap_get (heap_free p h) q = (if q = p then None else heap_get h q)"
  by (auto simp: heap_free_def heap_get_def)

lemma heap_eqI:
  "length h = length h' \<Longrightarrow> (\<And>p. heap_get h p = heap_get h' p) \<Longrightarrow> h = h'"
proof (rule nth_equalityI)
  show "length h = length h'" if "length h = length h'" using that .
next
  fix i assume a: "length h = length h'" "\<And>p. heap_get h p = heap_get h' p" "i < length h"
  from a(2)[of i] a(1,3) show "h ! i = h' ! i" by (simp add: heap_get_def)
qed

lemma heap_upd_absent [simp]: "heap_get h p = None \<Longrightarrow> heap_upd p f h = h"
  by (simp add: heap_upd_def)

text \<open>Clearing the parent of a list of nodes.\<close>

lemma length_fold_heap_upd [simp]:
  "length (fold (\<lambda>c. heap_upd c (f c)) cs h) = length h"
  by (induction cs arbitrary: h) simp_all

lemma heap_get_fold_clear_parent:
  "heap_get (fold (\<lambda>c. heap_upd c (\<lambda>cl. cl\<lparr>m_parent := None\<rparr>)) cs h) q =
     (if q \<in> set cs then map_option (\<lambda>cl. cl\<lparr>m_parent := None\<rparr>) (heap_get h q)
      else heap_get h q)"
  by (induction cs arbitrary: h) (auto simp: option.map_comp o_def)

lemma length_removeFromParent [simp]: "length (removeFromParent p h) = length h"
  by (simp add: removeFromParent_def split: option.split)

lemma length_removeAllChildren [simp]: "length (removeAllChildren p h) = length h"
  by (simp add: removeAllChildren_def split: option.split)

lemma length_addChild [simp]: "length (addChild p c h) = length h"
  by (simp add: addChild_def)

lemma length_setChildren [simp]: "length (setChildren p cs h) = length h"
proof -
  have "\<And>h. length (fold (addChild p) cs h) = length h"
    by (induction cs) simp_all
  then show ?thesis by (simp add: setChildren_def)
qed

lemma length_deleteGraphicsLayer [simp]: "length (deleteGraphicsLayer p h) = length h"
  by (simp add: deleteGraphicsLayer_def)

text \<open>The attributes of a node: everything but its place in the tree.\<close>

definition attrs :: "GraphicsLayer \<Rightarrow> GraphicsLayer" where
  "attrs l = l\<lparr>m_parent := None, m_children := []\<rparr>"

lemma attrs_simps [simp]:
  "attrs (l\<lparr>m_parent := x\<rparr>) = attrs l"
  "attrs (l\<lparr>m_children := y\<rparr>) = attrs l"
  by (simp_all add: attrs_def)

lemma attrs_removeFromParent [simp]:
  "map_option attrs (heap_get (removeFromParent p h) q) = map_option attrs (heap_get h q)"
  by (auto simp: removeFromParent_def option.map_comp o_def split: option.split)

lemma attrs_removeAllChildren [simp]:
  "map_option attrs (heap_get (removeAllChildren p h) q) = map_option attrs (heap_get h q)"
  by (auto simp: removeAllChildren_def heap_get_fold_clear_parent option.map_comp o_def
      split: option.split)

lemma attrs_addChild [simp]:
  "map_option attrs (heap_get (addChild p c h) q) = map_option attrs (heap_get h q)"
proof -
  have "map_option attrs (heap_get (addChild p c h) q) =
        map_option attrs (heap_get (removeFromParent c h) q)"
    by (auto simp: addChild_def option.map_comp o_def)
  then show ?thesis by simp
qed

lemma attrs_fold_addChild [simp]:
  "map_option attrs (heap_get (fold (addChild p) cs h) q) = map_option attrs (heap_get h q)"
  by (induction cs arbitrary: h) simp_all

lemma attrs_setChildren [simp]:
  "map_option attrs (heap_get (setChildren p cs h) q) = map_option attrs (heap_get h q)"
  by (simp add: setChildren_def)

lemma attrs_eq_None: "map_option attrs x = map_option attrs y \<Longrightarrow> x = None \<longleftrightarrow> y = None"
  by (cases x; cases y) simp_all

lemma live_removeFromParent [simp]:
  "heap_get (removeFromParent p h) q = None \<longleftrightarrow> heap_get h q = None"
  by (rule attrs_eq_None) simp

lemma live_removeAllChildren [simp]:
  "heap_get (removeAllChildren p h) q = None \<longleftrightarrow> heap_get h q = None"
  by (rule attrs_eq_None) simp

lemma live_addChild [simp]:
  "heap_get (addChild p c h) q = None \<longleftrightarrow> heap_get h q = None"
  by (rule attrs_eq_None) simp

lemma live_setChildren [simp]:
  "heap_get (setChildren p cs h) q = None \<longleftrightarrow> heap_get h q = None"
  by (rule attrs_eq_None) simp

lemma heap_get_deleteGraphicsLayer_self [simp]:
  "heap_get (deleteGraphicsLayer p h) p = None"
  by (simp add: deleteGraphicsLayer_def)

lemma attrs_deleteGraphicsLayer:
  "q \<noteq> p \<Longrightarrow>
   map_option attrs (heap_get (deleteGraphicsLayer p h) q) = map_option attrs (heap_get h q)"
  by (simp add: deleteGraphicsLayer_def)

lemma children_removeAllChildren:
  "q \<noteq> p \<Longrightarrow>
   map_option m_children (heap_get (removeAllChildren p h) q) =
   map_option m_children (heap_get h q)"
  by (auto simp: removeAllChildren_def heap_get_fold_clear_parent option.map_comp o_def
      split: option.split)

lemma children_removeAllChildren_self:
  "map_option m_children (heap_get (removeAllChildren p h) p) =
   map_option (\<lambda>_. []) (heap_get h p)"
  by (auto simp: removeAllChildren_def heap_get_fold_clear_parent option.map_comp o_def
      split: option.split)

lemma parent_removeAllChildren_None:
  "map_option m_parent (heap_get h q) = Some None \<Longrightarrow>
   map_option m_parent (heap_get (removeAllChildren p h) q) = Some None"
  by (auto simp: removeAllChildren_def heap_get_fold_clear_parent option.map_comp o_def
      split: option.split)

lemma removeFromParent_noparent:
  "map_option m_parent (heap_get h p) = Some None \<Longrightarrow> removeFromParent p h = h"
  by (auto simp: removeFromParent_def split: option.split)

lemma parent_removeFromParent_self:
  "heap_get h p \<noteq> None \<Longrightarrow>
   map_option m_parent (heap_get (removeFromParent p h) p) = Some None"
  by (auto simp: removeFromParent_def option.map_comp o_def split: option.split)

lemma children_removeFromParent:
  "heap_get h p = Some l \<Longrightarrow> m_parent l = Some q \<Longrightarrow> q \<noteq> p \<Longrightarrow>
   map_option m_children (heap_get (removeFromParent p h) q) =
   map_option (\<lambda>ql. remove1 p (m_children ql)) (heap_get h q)"
  by (auto simp: removeFromParent_def option.map_comp o_def)

lemma deleteLayer_noop: "layerByID s i = None \<Longrightarrow> deleteLayer i s = s"
  by (simp add: deleteLayer_def)

lemma deleteLayer_layers:
  "layerByID s i = Some p \<Longrightarrow> m_layers (deleteLayer i s) = (m_layers s)(i := None)"
  by (simp add: deleteLayer_def Let_def)

lemma deleteLayer_heap:
  "layerByID s i = Some p \<Longrightarrow>
   layerHeap (deleteLayer i s) = deleteGraphicsLayer p (removeFromParent p (layerHeap s))"
  by (simp add: deleteLayer_def Let_def)

lemma deleteLayer_parent_children:
  assumes "layerByID s i = Some p" "heap_get (layerHeap s) p = Some l" "m_parent l = Some q"
    "q \<noteq> p"
  shows "map_option m_children (heap_get (layerHeap (deleteLayer i s)) q) =
         map_option (\<lambda>ql. remove1 p (m_children ql)) (heap_get (layerHeap s) q)"
proof -
  let ?h1 = "removeFromParent p (layerHeap s)"
  let ?h2 = "removeAllChildren p ?h1"
  have p1: "map_option m_parent (heap_get ?h1 p) = Some None"
    using assms(2) by (intro parent_removeFromParent_self) simp
  then have "map_option m_parent (heap_get ?h2 p) = Some None"
    by (rule parent_removeAllChildren_None)
  then have "removeFromParent p ?h2 = ?h2" by (rule removeFromParent_noparent)
  then have "heap_get (deleteGraphicsLayer p ?h1) q = heap_get ?h2 q"
    using assms(4) by (simp add: deleteGraphicsLayer_def)
  then have "map_option m_children (heap_get (deleteGraphicsLayer p ?h1) q) =
      map_option m_children (heap_get ?h1 q)"
    using assms(4) by (simp add: children_removeAllChildren)
  also have "\<dots> = map_option (\<lambda>ql. remove1 p (m_children ql)) (heap_get (layerHeap s) q)"
    using assms(2,3,4) by (rule children_removeFromParent)
  finally show ?thesis by (simp add: deleteLayer_heap[OF assms(1)])
qed

text \<open>A descriptor with the attributes of a node nothing has touched.\<close>

definition defaultLayerInfo :: "WebLayerID \<Rightarrow> WebLayerInfo" where
  "defaultLayerInfo i =
    \<lparr> info_id = i, info_name = [], info_replica = 0, info_mask = 0,
      info_imageBackingStoreID = 0, info_pos = (float_0, float_0),
      info_size = (float_0, float_0), info_transform = [],
      info_anchorPoint = (float_half, float_half, float_0), info_childrenTransform = [],
      info_contentsRect = IntRect 0 0 0 0, info_opacity = float_1, info_isRootLayer = False,
      info_contentsOpaque = False, info_drawsContent = False, info_backfaceVisible = True,
      info_masksToBounds = False, info_preserves3D = False, info_imageIsUpdated = False,
      info_children = [], info_animations = [] \<rparr>"

text \<open>
  The state after the first paint of a page whose root layer 1 has the child 2: cell 0 is
  the root container, cells 1 and 2 are the two layers.
\<close>

definition exampleTree :: LayerTreeHostProxy where
  "exampleTree =
    \<lparr> layerHeap =
        [Some (newGraphicsLayer\<lparr>m_children := [1], m_anchorPoint := (float_0, float_0, float_0),
                 m_size := (float_1, float_1), m_shouldUpdateBackingStoreFromLayer := False\<rparr>),
         Some (newGraphicsLayer\<lparr>m_parent := Some 0, m_children := [2],
                 m_shouldUpdateBackingStoreFromLayer := False\<rparr>),
         Some (newGraphicsLayer\<lparr>m_parent := Some 1,
                 m_shouldUpdateBackingStoreFromLayer := False\<rparr>)],
      storeHeap = [], m_rootLayerID = 1, m_rootLayer = Some 0,
      m_layers = [1 \<mapsto> 1, 2 \<mapsto> 2], m_textureMapper = Some OpenGLMode,
      m_directlyCompositedImages = Map.empty, m_backingStoresWithPendingBuffers = {},
      m_messagesToRenderer = [], sentMessages = [], viewportUpdates = 1,
      currentTime = 0 \<rparr>"

lemmas eval_defs = LayerTreeHostProxy_new_def pushUpdateToQueue_def updateViewport_def append_message_def
      withQueue_def ensureRootLayer_def Let_def split_beta createLayer_def heap_alloc_def
      setLayer_def heap_upd_def heap_get_def setRootLayerID_def removeAllChildren_def layerByID_def
      InvalidWebLayerID_def flushLayerChanges_def syncCompositingState_def send_def swapBuffers_def
      syncLayerParameters_def ensureLayer_def hash_add_def needsToUpdateImageTiles_def
      defaultLayerInfo_def setChildren_def addChild_def removeFromParent_def newGraphicsLayer_def
      deleteLayer_def deleteGraphicsLayer_def heap_free_def

lemma exampleTree_reached:
  "syncRemoteContent (pushUpdateToQueue
     (SyncLayerParameters ((defaultLayerInfo 1)\<lparr>info_isRootLayer := True, info_children := [2]\<rparr>))
     (LayerTreeHostProxy_new 0)) = Inr exampleTree"
  unfolding syncRemoteContent_def by (simp add: tryGetMessage_def exampleTree_def eval_defs numeral_2_eq_2)

lemma parent_removeFromParent_other:
  "c \<noteq> p \<Longrightarrow>
   map_option m_parent (heap_get (removeFromParent p h) c) = map_option m_parent (heap_get h c)"
  by (auto simp: removeFromParent_def option.map_comp o_def split: option.split)

lemma children_removeFromParent_empty:
  "map_option m_children (heap_get h q) = Some [] \<Longrightarrow>
   map_option m_children (heap_get (removeFromParent p h) q) = Some []"
  by (auto simp: removeFromParent_def option.map_comp o_def split: option.split)

lemma parent_addChild_other:
  "c \<noteq> p \<Longrightarrow>
   map_option m_parent (heap_get (addChild r p h) c) = map_option m_parent (heap_get h c)"
  by (auto simp: addChild_def option.map_comp o_def parent_removeFromParent_other)

lemma parent_addChild_self:
  "map_option m_parent (heap_get (addChild r p h) p) = map_option (\<lambda>_. Some r) (heap_get h p)"
proof (cases "heap_get h p")
  case None
  then have "heap_get (addChild r p h) p = None" by simp
  with None show ?thesis by simp
next
  case (Some l)
  then have "heap_get (removeFromParent p h) p \<noteq> None" by simp
  then obtain l' where "heap_get (removeFromParent p h) p = Some l'" by blast
  with Some show ?thesis by (auto simp: addChild_def)
qed

lemma children_addChild_empty:
  assumes "map_option m_children (heap_get h r) = Some []"
  shows "map_option m_children (heap_get (addChild r p h) r) = Some [p]"
proof -
  from children_removeFromParent_empty[OF assms, of p]
  obtain l where l: "heap_get (removeFromParent p h) r = Some l" "m_children l = []"
    by auto
  then show ?thesis by (auto simp: addChild_def)
qed

lemma parent_removeAllChildren_child:
  "heap_get h r = Some rl \<Longrightarrow> c \<in> set (m_children rl) \<Longrightarrow>
   map_option m_parent (heap_get (removeAllChildren r h) c) = map_option (\<lambda>_. None) (heap_get h c)"
  by (auto simp: removeAllChildren_def heap_get_fold_clear_parent option.map_comp o_def)

lemma setRootLayerID_same: "setRootLayerID (m_rootLayerID s) s = Inr s"
  by (simp add: setRootLayerID_def)

lemma setRootLayerID_heap:
  assumes "B \<noteq> m_rootLayerID s" "m_rootLayer s = Some r"
  shows "\<exists>s'. setRootLayerID B s = Inr s' \<and> m_rootLayerID s' = B \<and> m_layers s' = m_layers s \<and>
     layerHeap s' = (case layerByID s B of
                       None \<Rightarrow> removeAllChildren r (layerHeap s)
                     | Some p \<Rightarrow> addChild r p (removeAllChildren r (layerHeap s)))"
  using assms
  by (auto simp: setRootLayerID_def Let_def layerByID_def InvalidWebLayerID_def
      split: option.split)

definition exampleRoot :: GraphicsLayer where
  "exampleRoot = newGraphicsLayer\<lparr>m_children := [1], m_anchorPoint := (float_0, float_0, float_0),
                 m_size := (float_1, float_1), m_shouldUpdateBackingStoreFromLayer := False\<rparr>"

lemma exampleTree_lookup:
  "m_rootLayerID exampleTree = 1"
  "m_rootLayer exampleTree = Some 0"
  "heap_get (layerHeap exampleTree) 0 = Some exampleRoot"
  "heap_get (layerHeap exampleTree) 1 = Some (newGraphicsLayer\<lparr>m_parent := Some 0,
      m_children := [2], m_shouldUpdateBackingStoreFromLayer := False\<rparr>)"
  "heap_get (layerHeap exampleTree) 2 = Some (newGraphicsLayer\<lparr>m_parent := Some 1,
      m_shouldUpdateBackingStoreFromLayer := False\<rparr>)"
  "length (layerHeap exampleTree) = 3"
  "m_layers exampleTree 1 = Some 1"
  "m_layers exampleTree 2 = Some 2"
  "layerByID exampleTree 1 = Some 1"
  "layerByID exampleTree 2 = Some 2"
  "layerByID exampleTree 9 = None"
  "layerByID exampleTree 7 = None"
  "m_directlyCompositedImages exampleTree = Map.empty"
  "storeHeap exampleTree = []"
  by (simp_all add: exampleTree_def exampleRoot_def layerByID_def InvalidWebLayerID_def
      heap_get_def)

subsection \<open>The stages of syncLayerParameters\<close>

text \<open>
  For the proofs, \<open>syncLayerParameters\<close> is cut at the image assignment: the setters
  before it act as one update of the node, and so do the three setters after it; the rest
  (children, animations, root) is \<open>sync_tail\<close>.
\<close>

definition freshLayer :: GraphicsLayer where
  "freshLayer = newGraphicsLayer\<lparr>m_shouldUpdateBackingStoreFromLayer := False\<rparr>"

definition sync_attrs1 :: "WebLayerInfo \<Rightarrow> LayerTreeHostProxy \<Rightarrow> GraphicsLayer \<Rightarrow> GraphicsLayer" where
  "sync_attrs1 layerInfo s l =
     l\<lparr>m_name := info_name layerInfo,
       m_replicaLayer := layerByID s (info_replica layerInfo),
       m_maskLayer := layerByID s (info_mask layerInfo),
       m_position := info_pos layerInfo,
       m_size := info_size layerInfo,
       m_transform := info_transform layerInfo,
       m_anchorPoint := info_anchorPoint layerInfo,
       m_childrenTransform := info_childrenTransform layerInfo,
       m_backfaceVisibility := info_backfaceVisible layerInfo,
       m_contentsOpaque := info_contentsOpaque layerInfo,
       m_contentsRect := info_contentsRect layerInfo,
       m_drawsContent := info_drawsContent layerInfo\<rparr>"

definition sync_attrs2 :: "WebLayerInfo \<Rightarrow> GraphicsLayer \<Rightarrow> GraphicsLayer" where
  "sync_attrs2 layerInfo l =
     l\<lparr>m_masksToBounds := (if info_isRootLayer layerInfo then False
                            else info_masksToBounds layerInfo),
       m_opacity := info_opacity layerInfo,
       m_preserves3D := info_preserves3D layerInfo\<rparr>"

definition sync_tail :: "layer_ptr \<Rightarrow> WebLayerInfo \<Rightarrow> LayerTreeHostProxy \<Rightarrow> error + LayerTreeHostProxy" where
  "sync_tail p layerInfo s6 =
    (let s7 = setLayer p (sync_attrs2 layerInfo) s6;
         (children, s8) = resolveChildren (info_children layerInfo) s7;
         s9 = s8\<lparr>layerHeap := setChildren p children (layerHeap s8)\<rparr>;
         s10 = fold (applyAnimation p) (info_animations layerInfo) s9
     in if info_isRootLayer layerInfo \<and> m_rootLayerID s10 \<noteq> info_id layerInfo
        then setRootLayerID (info_id layerInfo) s10 else Inr s10)"

lemma heap_upd_heap_upd: "heap_upd p f (heap_upd p g h) = heap_upd p (f \<circ> g) h"
  by (rule heap_eqI) (auto simp: option.map_comp)

lemma setLayer_setLayer: "setLayer p f (setLayer p g s) = setLayer p (f \<circ> g) s"
  by (simp add: setLayer_def heap_upd_heap_upd)

lemma syncLayerParameters_stages:
  "syncLayerParameters layerInfo s =
    (let s1 = ensureLayer (info_id layerInfo) s in
     case m_layers s1 (info_id layerInfo) of
       None \<Rightarrow> Inl NullDereference
     | Some p \<Rightarrow>
        (case heap_get (layerHeap s1) p of
           None \<Rightarrow> Inl UseAfterFree
         | Some layer \<Rightarrow>
            (case (if needsToUpdateImageTiles layerInfo layer
                   then assignImageToLayer p (info_imageBackingStoreID layerInfo)
                          (setLayer p (sync_attrs1 layerInfo s1) s1)
                   else Inr (setLayer p (sync_attrs1 layerInfo s1) s1)) of
               Inl e \<Rightarrow> Inl e
             | Inr s6 \<Rightarrow> sync_tail p layerInfo s6)))"
proof -
  have c: "\<And>p s1.
     (\<lambda>l. l\<lparr>m_position := info_pos layerInfo, m_size := info_size layerInfo,
            m_transform := info_transform layerInfo,
            m_anchorPoint := info_anchorPoint layerInfo,
            m_childrenTransform := info_childrenTransform layerInfo,
            m_backfaceVisibility := info_backfaceVisible layerInfo,
            m_contentsOpaque := info_contentsOpaque layerInfo,
            m_contentsRect := info_contentsRect layerInfo,
            m_drawsContent := info_drawsContent layerInfo\<rparr>) \<circ>
     ((\<lambda>l. l\<lparr>m_maskLayer := layerByID s1 (info_mask layerInfo)\<rparr>) \<circ>
      ((\<lambda>l. l\<lparr>m_replicaLayer := layerByID s1 (info_replica layerInfo)\<rparr>) \<circ>
       (\<lambda>l. l\<lparr>m_name := info_name layerInfo\<rparr>))) = sync_attrs1 layerInfo s1"
    by (rule ext) (simp add: sync_attrs1_def)
  have d: "(\<lambda>l. l\<lparr>m_masksToBounds := (if info_isRootLayer layerInfo then False
                            else info_masksToBounds layerInfo),
       m_opacity := info_opacity layerInfo,
       m_preserves3D := info_preserves3D layerInfo\<rparr>) = sync_attrs2 layerInfo"
    by (rule ext) (simp add: sync_attrs2_def)
  show ?thesis
    unfolding syncLayerParameters_def sync_tail_def Let_def
    by (simp add: setLayer_setLayer c d cong: option.case_cong sum.case_cong if_cong)
qed

text \<open>The attributes of a node that neither the tree operations nor the animations touch.\<close>

definition geom :: "GraphicsLayer \<Rightarrow> GraphicsLayer" where
  "geom l = l\<lparr>m_parent := None, m_children := [], m_animations := []\<rparr>"

lemma geom_simps [simp]:
  "geom (l\<lparr>m_parent := x\<rparr>) = geom l"
  "geom (l\<lparr>m_children := y\<rparr>) = geom l"
  "geom (l\<lparr>m_animations := z\<rparr>) = geom l"
  "geom (attrs l) = geom l"
  by (simp_all add: geom_def attrs_def)

lemma geom_of_attrs:
  "map_option attrs x = map_option attrs y \<Longrightarrow> map_option geom x = map_option geom y"
proof -
  assume "map_option attrs x = map_option attrs y"
  then have "map_option geom (map_option attrs x) = map_option geom (map_option attrs y)"
    by simp
  then show ?thesis by (simp add: option.map_comp o_def)
qed

lemma geom_eq_None: "map_option geom x = map_option geom y \<Longrightarrow> x = None \<longleftrightarrow> y = None"
  by (cases x; cases y) simp_all

subsection \<open>resolveChildren\<close>

lemma hash_add_mono: "m j = Some q \<Longrightarrow> hash_add m k v j = Some q"
  by (auto simp: hash_add_def split: option.split)

lemma hash_add_present: "hash_add m k v k \<noteq> None"
  by (auto simp: hash_add_def split: option.split)

lemma hash_add_absent: "m k = None \<Longrightarrow> hash_add m k v = m(k \<mapsto> v)"
  by (simp add: hash_add_def)

lemma createLayer_heap:
  "layerHeap (snd (createLayer i s)) = layerHeap s @ [Some freshLayer]"
  by (simp add: freshLayer_def)

lemma resolveChildren_layers_mono:
  "m_layers s j = Some q \<Longrightarrow> m_layers (snd (resolveChildren cs s)) j = Some q"
  by (induction cs arbitrary: s)
     (auto simp: split_beta Let_def hash_add_mono split: option.split)

lemma resolveChildren_heap:
  "\<exists>n. layerHeap (snd (resolveChildren cs s)) = layerHeap s @ replicate n (Some freshLayer)"
proof (induction cs arbitrary: s)
  case Nil
  show ?case by (intro exI[of _ 0]) simp
next
  case (Cons c cs)
  show ?case
  proof (cases "layerByID s c")
    case (Some child)
    with Cons.IH[of s] show ?thesis by (simp add: split_beta)
  next
    case None
    let ?s2 = "(snd (createLayer c s))\<lparr>m_layers :=
        hash_add (m_layers (snd (createLayer c s))) c (fst (createLayer c s))\<rparr>"
    from Cons.IH[of ?s2] obtain n where
      "layerHeap (snd (resolveChildren cs ?s2)) = layerHeap ?s2 @ replicate n (Some freshLayer)"
      by blast
    then have "layerHeap (snd (resolveChildren (c # cs) s)) =
        layerHeap s @ replicate (Suc n) (Some freshLayer)"
      using None by (simp add: split_beta Let_def freshLayer_def)
    then show ?thesis by blast
  qed
qed

lemma heap_get_append_replicate:
  "heap_get (h @ replicate n (Some v)) q =
     (if q < length h then heap_get h q else if q < length h + n then Some v else None)"
  by (auto simp: heap_get_def nth_append)

lemma resolveChildren_old:
  "q < length (layerHeap s) \<Longrightarrow>
   heap_get (layerHeap (snd (resolveChildren cs s))) q = heap_get (layerHeap s) q"
  using resolveChildren_heap[of cs s] by (auto simp: heap_get_append_replicate)

lemma resolveChildren_new:
  "length (layerHeap s) \<le> q \<Longrightarrow> q < length (layerHeap (snd (resolveChildren cs s))) \<Longrightarrow>
   heap_get (layerHeap (snd (resolveChildren cs s))) q = Some freshLayer"
  using resolveChildren_heap[of cs s] by (auto simp: heap_get_append_replicate)

lemma resolveChildren_length:
  "length (layerHeap s) \<le> length (layerHeap (snd (resolveChildren cs s)))"
  using resolveChildren_heap[of cs s] by auto

lemma resolveChildren_materializes:
  "c \<in> set cs \<Longrightarrow> m_layers s c = None \<Longrightarrow>
   \<exists>q. m_layers (snd (resolveChildren cs s)) c = Some q \<and> length (layerHeap s) \<le> q \<and>
       q < length (layerHeap (snd (resolveChildren cs s)))"
proof (induction cs arbitrary: s)
  case Nil
  then show ?case by simp
next
  case (Cons a cs)
  show ?case
  proof (cases "layerByID s a")
    case (Some child)
    with Cons.prems have "a \<noteq> c" by (auto simp: layerByID_def split: if_splits)
    with Cons.prems have "c \<in> set cs" by simp
    from Cons.IH[OF this Cons.prems(2)] Some show ?thesis by (simp add: split_beta)
  next
    case None
    let ?s2 = "(snd (createLayer a s))\<lparr>m_layers :=
        hash_add (m_layers (snd (createLayer a s))) a (fst (createLayer a s))\<rparr>"
    have res: "snd (resolveChildren (a # cs) s) = snd (resolveChildren cs ?s2)"
      using None by (simp add: split_beta Let_def)
    have len: "length (layerHeap ?s2) = Suc (length (layerHeap s))" by simp
    show ?thesis
    proof (cases "a = c")
      case True
      then have "m_layers ?s2 c = Some (length (layerHeap s))"
        using Cons.prems(2) by (simp add: hash_add_absent)
      then have "m_layers (snd (resolveChildren cs ?s2)) c = Some (length (layerHeap s))"
        by (rule resolveChildren_layers_mono)
      moreover have "length (layerHeap s) < length (layerHeap (snd (resolveChildren cs ?s2)))"
        using resolveChildren_length[of ?s2 cs] len by simp
      ultimately show ?thesis unfolding res by blast
    next
      case False
      with Cons.prems have c: "c \<in> set cs" by simp
      have "m_layers ?s2 c = None"
        using Cons.prems(2) False by (auto simp: hash_add_def split: option.split)
      from Cons.IH[OF c this] obtain q where
        "m_layers (snd (resolveChildren cs ?s2)) c = Some q" "length (layerHeap ?s2) \<le> q"
        "q < length (layerHeap (snd (resolveChildren cs ?s2)))" by blast
      then show ?thesis using len unfolding res by auto
    qed
  qed
qed

lemma resolveChildren_in_map:
  "c \<in> set cs \<Longrightarrow> m_layers (snd (resolveChildren cs s)) c \<noteq> None"
proof (induction cs arbitrary: s)
  case Nil
  then show ?case by simp
next
  case (Cons a cs)
  show ?case
  proof (cases "a = c")
    case False
    with Cons show ?thesis by (auto simp: split_beta Let_def split: option.split)
  next
    case True
    show ?thesis
    proof (cases "layerByID s a")
      case (Some child)
      then have "m_layers s c = Some child" using True by (auto simp: layerByID_def split: if_splits)
      from resolveChildren_layers_mono[OF this] Some show ?thesis by (simp add: split_beta)
    next
      case None
      let ?s2 = "(snd (createLayer a s))\<lparr>m_layers :=
        hash_add (m_layers (snd (createLayer a s))) a (fst (createLayer a s))\<rparr>"
      have "m_layers ?s2 c \<noteq> None" using True by (simp add: hash_add_present)
      then obtain q where "m_layers ?s2 c = Some q" by blast
      from resolveChildren_layers_mono[OF this] None show ?thesis
        by (simp add: split_beta Let_def)
    qed
  qed
qed

lemma setRootLayerID_attrs:
  assumes "setRootLayerID i s = Inr s'"
  shows "map_option attrs (heap_get (layerHeap s') q) = map_option attrs (heap_get (layerHeap s) q)"
    and "length (layerHeap s') = length (layerHeap s)"
  using assms
  by (auto simp: setRootLayerID_def Let_def split: if_splits option.splits)

lemma applyAnimation_heap:
  "length (layerHeap (applyAnimation p a s)) = length (layerHeap s)"
  "map_option geom (heap_get (layerHeap (applyAnimation p a s)) q) =
     map_option geom (heap_get (layerHeap s) q)"
  "q \<noteq> p \<Longrightarrow> heap_get (layerHeap (applyAnimation p a s)) q = heap_get (layerHeap s) q"
  by (auto simp: applyAnimation_def Let_def addAnimation_def removeAnimation_def
      pauseAnimation_def option.map_comp o_def split: Operation.split)

lemma fold_applyAnimation_heap:
  "length (layerHeap (fold (applyAnimation p) as s)) = length (layerHeap s)"
  "map_option geom (heap_get (layerHeap (fold (applyAnimation p) as s)) q) =
     map_option geom (heap_get (layerHeap s) q)"
  "q \<noteq> p \<Longrightarrow> heap_get (layerHeap (fold (applyAnimation p) as s)) q = heap_get (layerHeap s) q"
  by (induction as arbitrary: s; simp add: applyAnimation_heap)+

definition sync_children :: "layer_ptr \<Rightarrow> WebLayerInfo \<Rightarrow> LayerTreeHostProxy \<Rightarrow> LayerTreeHostProxy" where
  "sync_children p layerInfo s6 =
    (let rc = resolveChildren (info_children layerInfo) (setLayer p (sync_attrs2 layerInfo) s6)
     in fold (applyAnimation p) (info_animations layerInfo)
          ((snd rc)\<lparr>layerHeap := setChildren p (fst rc) (layerHeap (snd rc))\<rparr>))"

lemma sync_tail_eq:
  "sync_tail p layerInfo s6 =
     (if info_isRootLayer layerInfo \<and> m_rootLayerID s6 \<noteq> info_id layerInfo
      then setRootLayerID (info_id layerInfo) (sync_children p layerInfo s6)
      else Inr (sync_children p layerInfo s6))"
  by (simp add: sync_tail_def sync_children_def Let_def split_beta)

lemma sync_children_frame [simp]:
  "storeHeap (sync_children p info s) = storeHeap s"
  "m_rootLayerID (sync_children p info s) = m_rootLayerID s"
  "m_rootLayer (sync_children p info s) = m_rootLayer s"
  "m_textureMapper (sync_children p info s) = m_textureMapper s"
  "m_directlyCompositedImages (sync_children p info s) = m_directlyCompositedImages s"
  "m_backingStoresWithPendingBuffers (sync_children p info s) = m_backingStoresWithPendingBuffers s"
  "m_messagesToRenderer (sync_children p info s) = m_messagesToRenderer s"
  "sentMessages (sync_children p info s) = sentMessages s"
  "viewportUpdates (sync_children p info s) = viewportUpdates s"
  "currentTime (sync_children p info s) = currentTime s"
  by (simp_all add: sync_children_def Let_def)

lemma sync_children_layers:
  "m_layers (sync_children p info s) =
   m_layers (snd (resolveChildren (info_children info) (setLayer p (sync_attrs2 info) s)))"
  by (simp add: sync_children_def Let_def)

lemma sync_children_layers_mono:
  "m_layers s j = Some q \<Longrightarrow> m_layers (sync_children p info s) j = Some q"
  by (simp add: sync_children_layers resolveChildren_layers_mono)

lemma sync_children_length:
  "length (layerHeap s) \<le> length (layerHeap (sync_children p info s))"
  using resolveChildren_length[of "setLayer p (sync_attrs2 info) s" "info_children info"]
  by (simp add: sync_children_def Let_def fold_applyAnimation_heap)

lemma sync_children_geom:
  assumes "q < length (layerHeap s)"
  shows "map_option geom (heap_get (layerHeap (sync_children p info s)) q) =
     (if q = p then map_option (geom \<circ> sync_attrs2 info) (heap_get (layerHeap s) q)
      else map_option geom (heap_get (layerHeap s) q))"
proof -
  let ?s7 = "setLayer p (sync_attrs2 info) s"
  let ?rc = "resolveChildren (info_children info) ?s7"
  have "map_option geom (heap_get (layerHeap (sync_children p info s)) q) =
      map_option geom (heap_get (setChildren p (fst ?rc) (layerHeap (snd ?rc))) q)"
    by (simp add: sync_children_def Let_def fold_applyAnimation_heap)
  also have "\<dots> = map_option geom (heap_get (layerHeap (snd ?rc)) q)"
    by (rule geom_of_attrs) simp
  also have "\<dots> = map_option geom (heap_get (layerHeap ?s7) q)"
    using assms by (simp add: resolveChildren_old)
  also have "\<dots> = (if q = p then map_option (geom \<circ> sync_attrs2 info) (heap_get (layerHeap s) q)
      else map_option geom (heap_get (layerHeap s) q))"
    by (simp add: option.map_comp)
  finally show ?thesis .
qed

lemma sync_children_attrs_other:
  assumes "q \<noteq> p"
  shows "map_option attrs (heap_get (layerHeap (sync_children p info s)) q) =
     (if q < length (layerHeap s) then map_option attrs (heap_get (layerHeap s) q)
      else if q < length (layerHeap (sync_children p info s)) then Some (attrs freshLayer)
      else None)"
proof -
  let ?s7 = "setLayer p (sync_attrs2 info) s"
  let ?rc = "resolveChildren (info_children info) ?s7"
  have len: "length (layerHeap (sync_children p info s)) = length (layerHeap (snd ?rc))"
    by (simp add: sync_children_def Let_def fold_applyAnimation_heap)
  have "map_option attrs (heap_get (layerHeap (sync_children p info s)) q) =
      map_option attrs (heap_get (setChildren p (fst ?rc) (layerHeap (snd ?rc))) q)"
    using assms by (simp add: sync_children_def Let_def fold_applyAnimation_heap)
  also have "\<dots> = map_option attrs (heap_get (layerHeap (snd ?rc)) q)"
    by simp
  finally have e: "map_option attrs (heap_get (layerHeap (sync_children p info s)) q) =
      map_option attrs (heap_get (layerHeap (snd ?rc)) q)" .
  show ?thesis
  proof (cases "q < length (layerHeap s)")
    case True
    then show ?thesis using assms by (simp add: e resolveChildren_old)
  next
    case False
    show ?thesis
    proof (cases "q < length (layerHeap (snd ?rc))")
      case True
      with False have "heap_get (layerHeap (snd ?rc)) q = Some freshLayer"
        by (intro resolveChildren_new) simp_all
      with False True show ?thesis by (simp add: e len)
    next
      case f: False
      then have "heap_get (layerHeap (snd ?rc)) q = None" by (simp add: heap_get_def)
      with False f show ?thesis by (simp add: e len)
    qed
  qed
qed

lemma sync_tail_Inr:
  assumes "sync_tail p info s6 = Inr s'"
  shows "info_isRootLayer info \<longrightarrow> m_rootLayerID s' = info_id info"
    and "\<not> info_isRootLayer info \<longrightarrow> s' = sync_children p info s6"
    and "m_layers s' = m_layers (sync_children p info s6)"
    and "length (layerHeap s') = length (layerHeap (sync_children p info s6))"
    and "\<And>q. map_option attrs (heap_get (layerHeap s') q) =
            map_option attrs (heap_get (layerHeap (sync_children p info s6)) q)"
  using assms
  by (auto simp: sync_tail_eq split: if_splits dest: setRootLayerID_frame setRootLayerID_attrs)


lemma ensureLayer_layers:
  "m_layers (ensureLayer i s) =
     (case m_layers s i of None \<Rightarrow> (m_layers s)(i \<mapsto> length (layerHeap s)) | Some _ \<Rightarrow> m_layers s)"
  by (auto simp: ensureLayer_def split_beta hash_add_def split: option.split)

lemma ensureLayer_heap:
  "layerHeap (ensureLayer i s) =
     (if m_layers s i = None then layerHeap s @ [Some freshLayer] else layerHeap s)"
  by (simp add: ensureLayer_def split_beta freshLayer_def)

lemma ensureLayer_layers_mono:
  "m_layers s j = Some q \<Longrightarrow> m_layers (ensureLayer i s) j = Some q"
  by (auto simp: ensureLayer_layers split: option.split)

text \<open>What the node of the descriptor looks like when the tail of the function starts.\<close>

definition sync_node :: "WebLayerInfo \<Rightarrow> LayerTreeHostProxy \<Rightarrow> GraphicsLayer \<Rightarrow> GraphicsLayer" where
  "sync_node layerInfo s1 layer =
    (if needsToUpdateImageTiles layerInfo layer
     then (sync_attrs1 layerInfo s1 layer)\<lparr>m_contentsMedia :=
            m_directlyCompositedImages s1 (info_imageBackingStoreID layerInfo)\<rparr>
     else sync_attrs1 layerInfo s1 layer)"

lemma syncLayerParameters_Inr:
  assumes "syncLayerParameters info s = Inr s'"
  obtains p layer where
    "m_layers (ensureLayer (info_id info) s) (info_id info) = Some p"
    "heap_get (layerHeap (ensureLayer (info_id info) s)) p = Some layer"
    "needsToUpdateImageTiles info layer \<longrightarrow>
       m_directlyCompositedImages s (info_imageBackingStoreID info) \<noteq> None"
    "sync_tail p info (setLayer p (\<lambda>_. sync_node info (ensureLayer (info_id info) s) layer)
        (ensureLayer (info_id info) s)) = Inr s'"
proof -
  let ?s1 = "ensureLayer (info_id info) s"
  from assms obtain p where p: "m_layers ?s1 (info_id info) = Some p"
    by (auto simp: syncLayerParameters_stages Let_def split: option.splits)
  from assms p obtain layer where l: "heap_get (layerHeap ?s1) p = Some layer"
    by (auto simp: syncLayerParameters_stages Let_def split: option.splits)
  have upd: "\<And>f. setLayer p f ?s1 = setLayer p (\<lambda>_. f layer) ?s1"
    using l by (simp add: setLayer_def heap_upd_def)
  show ?thesis
  proof (cases "needsToUpdateImageTiles info layer")
    case False
    with assms p l have "sync_tail p info (setLayer p (sync_attrs1 info ?s1) ?s1) = Inr s'"
      by (simp add: syncLayerParameters_stages Let_def)
    then have "sync_tail p info (setLayer p (\<lambda>_. sync_node info ?s1 layer) ?s1) = Inr s'"
      using False by (subst (asm) upd) (simp add: sync_node_def)
    with p l False show ?thesis by (intro that[of p layer]) simp_all
  next
    case True
    with assms p l obtain s6 where
      a: "assignImageToLayer p (info_imageBackingStoreID info)
            (setLayer p (sync_attrs1 info ?s1) ?s1) = Inr s6"
      and t: "sync_tail p info s6 = Inr s'"
      by (auto simp: syncLayerParameters_stages Let_def split: sum.splits)
    from assignImageToLayer_eq[OF a] obtain media where
      m: "m_directlyCompositedImages s (info_imageBackingStoreID info) = Some media"
      and s6: "s6 = setLayer p (\<lambda>l. l\<lparr>m_contentsMedia := Some media\<rparr>)
                 (setLayer p (sync_attrs1 info ?s1) ?s1)"
      by auto
    have "s6 = setLayer p (\<lambda>_. sync_node info ?s1 layer) ?s1"
      unfolding s6 setLayer_setLayer
      by (subst upd) (simp add: sync_node_def True m)
    with t p l m show ?thesis by (intro that[of p layer]) simp_all
  qed
qed

lemma syncLayerParameters_node:
  assumes "syncLayerParameters info s = Inr s'"
  obtains p layer l' where
    "m_layers (ensureLayer (info_id info) s) (info_id info) = Some p"
    "heap_get (layerHeap (ensureLayer (info_id info) s)) p = Some layer"
    "m_layers s' (info_id info) = Some p"
    "heap_get (layerHeap s') p = Some l'"
    "geom l' = geom (sync_attrs2 info (sync_node info (ensureLayer (info_id info) s) layer))"
proof -
  let ?s1 = "ensureLayer (info_id info) s"
  from syncLayerParameters_Inr[OF assms] obtain p layer where
    p: "m_layers ?s1 (info_id info) = Some p"
    and l: "heap_get (layerHeap ?s1) p = Some layer"
    and t: "sync_tail p info (setLayer p (\<lambda>_. sync_node info ?s1 layer) ?s1) = Inr s'"
    by blast
  let ?s6 = "setLayer p (\<lambda>_. sync_node info ?s1 layer) ?s1"
  have lt: "p < length (layerHeap ?s6)" using l by (simp add: heap_get_Some_less)
  have "m_layers (sync_children p info ?s6) (info_id info) = Some p"
    using p by (intro sync_children_layers_mono) simp
  then have m: "m_layers s' (info_id info) = Some p"
    using sync_tail_Inr(3)[OF t] by simp
  have "map_option geom (heap_get (layerHeap s') p) =
        map_option geom (heap_get (layerHeap (sync_children p info ?s6)) p)"
    by (rule geom_of_attrs) (rule sync_tail_Inr(5)[OF t])
  also have "\<dots> = map_option (geom \<circ> sync_attrs2 info) (heap_get (layerHeap ?s6) p)"
    using sync_children_geom[OF lt, of p info] by simp
  also have "\<dots> = Some (geom (sync_attrs2 info (sync_node info ?s1 layer)))"
    using l by simp
  finally obtain l' where "heap_get (layerHeap s') p = Some l'"
    "geom l' = geom (sync_attrs2 info (sync_node info ?s1 layer))"
    by auto
  with p l m show ?thesis by (intro that[of p layer l']) simp_all
qed

lemma syncLayerParameters_root:
  assumes "syncLayerParameters info s = Inr s'" "info_isRootLayer info"
  shows "m_rootLayerID s' = info_id info"
proof -
  from syncLayerParameters_Inr[OF assms(1)] obtain p s6 where "sync_tail p info s6 = Inr s'"
    by blast
  from sync_tail_Inr(1)[OF this] assms(2) show ?thesis by simp
qed

lemma geom_sel [simp]:
  "m_name (geom l) = m_name l"
  "m_maskLayer (geom l) = m_maskLayer l"
  "m_replicaLayer (geom l) = m_replicaLayer l"
  "m_position (geom l) = m_position l"
  "m_anchorPoint (geom l) = m_anchorPoint l"
  "m_size (geom l) = m_size l"
  "m_transform (geom l) = m_transform l"
  "m_childrenTransform (geom l) = m_childrenTransform l"
  "m_opacity (geom l) = m_opacity l"
  "m_preserves3D (geom l) = m_preserves3D l"
  "m_backfaceVisibility (geom l) = m_backfaceVisibility l"
  "m_contentsOpaque (geom l) = m_contentsOpaque l"
  "m_drawsContent (geom l) = m_drawsContent l"
  "m_masksToBounds (geom l) = m_masksToBounds l"
  "m_contentsRect (geom l) = m_contentsRect l"
  "m_contentsMedia (geom l) = m_contentsMedia l"
  "m_backingStore (geom l) = m_backingStore l"
  "m_shouldUpdateBackingStoreFromLayer (geom l) = m_shouldUpdateBackingStoreFromLayer l"
  by (simp_all add: geom_def)

lemma geom_masksToBounds:
  assumes "geom l = geom l'"
  shows "m_masksToBounds l = m_masksToBounds l'"
proof -
  have "m_masksToBounds (geom l) = m_masksToBounds (geom l')" using assms by simp
  then show ?thesis by simp
qed

subsection \<open>Well-formed states\<close>

text \<open>
  The states the replay reaches: every identifier of \<open>m_layers\<close> points to a live node,
  no two identifiers share a node, and the root container exists and is not registered
  under any identifier.
\<close>

definition wellFormed :: "LayerTreeHostProxy \<Rightarrow> bool" where
  "wellFormed s \<longleftrightarrow>
     (\<forall>i p. m_layers s i = Some p \<longrightarrow> heap_get (layerHeap s) p \<noteq> None) \<and>
     (\<forall>i j p. m_layers s i = Some p \<and> m_layers s j = Some p \<longrightarrow> i = j) \<and>
     (\<exists>r. m_rootLayer s = Some r \<and> heap_get (layerHeap s) r \<noteq> None \<and>
          (\<forall>i. m_layers s i \<noteq> Some r))"

lemma wellFormed_cong:
  assumes "wellFormed s" "m_layers s' = m_layers s" "m_rootLayer s' = m_rootLayer s"
    "\<And>q. heap_get (layerHeap s') q = None \<longleftrightarrow> heap_get (layerHeap s) q = None"
  shows "wellFormed s'"
  using assms unfolding wellFormed_def by simp

lemma wellFormed_alloc:
  assumes "wellFormed s" "m_rootLayer s' = m_rootLayer s"
    "layerHeap s' = layerHeap s @ [Some x]"
    "m_layers s' = hash_add (m_layers s) i (length (layerHeap s))"
  shows "wellFormed s'"
proof -
  have lt: "\<And>j q. m_layers s j = Some q \<Longrightarrow> q < length (layerHeap s)"
    using assms(1) unfolding wellFormed_def by (meson heap_get_Some_less not_Some_eq)
  have new: "\<And>j q. m_layers s' j = Some q \<Longrightarrow>
      m_layers s j = Some q \<or> (j = i \<and> q = length (layerHeap s) \<and> m_layers s i = None)"
    by (auto simp: assms(4) hash_add_def split: option.splits if_splits)
  have 1: "\<forall>j p. m_layers s' j = Some p \<longrightarrow> heap_get (layerHeap s') p \<noteq> None"
  proof (intro allI impI)
    fix j p assume "m_layers s' j = Some p"
    from new[OF this] show "heap_get (layerHeap s') p \<noteq> None"
      using assms(1) lt unfolding wellFormed_def by (auto simp: assms(3))
  qed
  have 2: "\<forall>j k p. m_layers s' j = Some p \<and> m_layers s' k = Some p \<longrightarrow> j = k"
  proof (intro allI impI)
    fix j k p assume a: "m_layers s' j = Some p \<and> m_layers s' k = Some p"
    from new[of j p] new[of k p] a lt[of j p] lt[of k p] assms(1)
    show "j = k" unfolding wellFormed_def by (elim disjE conjE) (blast | simp)+
  qed
  from assms(1) obtain r where r: "m_rootLayer s = Some r" "heap_get (layerHeap s) r \<noteq> None"
    "\<forall>j. m_layers s j \<noteq> Some r" unfolding wellFormed_def by blast
  then have rl: "r < length (layerHeap s)" by (meson heap_get_Some_less not_Some_eq)
  have 3: "\<exists>r. m_rootLayer s' = Some r \<and> heap_get (layerHeap s') r \<noteq> None \<and>
          (\<forall>j. m_layers s' j \<noteq> Some r)"
  proof (intro exI[of _ r] conjI allI)
    show "m_rootLayer s' = Some r" using r by (simp add: assms(2))
    show "heap_get (layerHeap s') r \<noteq> None" using r rl by (simp add: assms(3))
    fix j show "m_layers s' j \<noteq> Some r" using new[of j r] r(3) rl by auto
  qed
  from 1 2 3 show ?thesis unfolding wellFormed_def by blast
qed

lemma wellFormed_alloc_unregistered:
  assumes "wellFormed s" "m_rootLayer s' = m_rootLayer s"
    "layerHeap s' = layerHeap s @ [Some x]" "m_layers s' = m_layers s"
  shows "wellFormed s'"
proof -
  have "\<And>q. heap_get (layerHeap s) q \<noteq> None \<Longrightarrow> heap_get (layerHeap s') q \<noteq> None"
    by (auto simp: assms(3) dest: heap_get_Some_less)
  then show ?thesis using assms(1,2,4) unfolding wellFormed_def by auto
qed

lemma wellFormed_ensureLayer: "wellFormed s \<Longrightarrow> wellFormed (ensureLayer i s)"
proof (cases "m_layers s i")
  case None
  assume "wellFormed s"
  then show ?thesis
    by (rule wellFormed_alloc[where i = i and x = freshLayer])
       (simp_all add: None ensureLayer_def split_beta freshLayer_def)
next
  case (Some p)
  assume "wellFormed s"
  then show ?thesis using Some by (simp add: ensureLayer_def)
qed

lemma wellFormed_setLayer: "wellFormed s \<Longrightarrow> wellFormed (setLayer p f s)"
  by (erule wellFormed_cong) auto

lemma wellFormed_resolveChildren:
  "wellFormed s \<Longrightarrow> wellFormed (snd (resolveChildren cs s))"
proof (induction cs arbitrary: s)
  case Nil
  then show ?case by simp
next
  case (Cons c cs)
  show ?case
  proof (cases "layerByID s c")
    case (Some child)
    with Cons show ?thesis by (simp add: split_beta)
  next
    case None
    let ?s2 = "(snd (createLayer c s))\<lparr>m_layers :=
        hash_add (m_layers (snd (createLayer c s))) c (fst (createLayer c s))\<rparr>"
    have "wellFormed ?s2"
      by (rule wellFormed_alloc[OF Cons.prems, where i = c and x = freshLayer])
         (simp_all add: freshLayer_def)
    from Cons.IH[OF this] None show ?thesis by (simp add: split_beta Let_def)
  qed
qed

lemma wellFormed_sync_children: "wellFormed s \<Longrightarrow> wellFormed (sync_children p info s)"
proof -
  assume "wellFormed s"
  then have w: "wellFormed (snd (resolveChildren (info_children info)
      (setLayer p (sync_attrs2 info) s)))"
    by (intro wellFormed_resolveChildren wellFormed_setLayer)
  show ?thesis
  proof (rule wellFormed_cong[OF w])
    fix q
    let ?rc = "resolveChildren (info_children info) (setLayer p (sync_attrs2 info) s)"
    have "map_option geom (heap_get (layerHeap (sync_children p info s)) q) =
        map_option geom (heap_get (setChildren p (fst ?rc) (layerHeap (snd ?rc))) q)"
      by (simp add: sync_children_def Let_def fold_applyAnimation_heap)
    from geom_eq_None[OF this]
    show "heap_get (layerHeap (sync_children p info s)) q = None \<longleftrightarrow>
        heap_get (layerHeap (snd ?rc)) q = None" by simp
  qed (simp_all add: sync_children_layers)
qed

lemma wellFormed_setRootLayerID:
  "wellFormed s \<Longrightarrow> setRootLayerID i s = Inr s' \<Longrightarrow> wellFormed s'"
  by (erule wellFormed_cong)
     (auto dest: setRootLayerID_frame attrs_eq_None[OF setRootLayerID_attrs(1)])

lemma wellFormed_sync_tail:
  "wellFormed s \<Longrightarrow> sync_tail p info s = Inr s' \<Longrightarrow> wellFormed s'"
  by (auto simp: sync_tail_eq split: if_splits
      intro: wellFormed_sync_children wellFormed_setRootLayerID)

lemma wellFormed_syncLayerParameters:
  assumes "wellFormed s" "syncLayerParameters info s = Inr s'"
  shows "wellFormed s'"
proof -
  from syncLayerParameters_Inr[OF assms(2)] obtain p layer where
    t: "sync_tail p info (setLayer p (\<lambda>_. sync_node info (ensureLayer (info_id info) s) layer)
        (ensureLayer (info_id info) s)) = Inr s'"
    by blast
  show ?thesis
    by (rule wellFormed_sync_tail[OF _ t])
       (intro wellFormed_setLayer wellFormed_ensureLayer assms(1))
qed

lemma live_deleteGraphicsLayer:
  "heap_get (deleteGraphicsLayer p h) q = None \<longleftrightarrow> q = p \<or> heap_get h q = None"
  by (simp add: deleteGraphicsLayer_def)

lemma wellFormed_deleteLayer:
  assumes "wellFormed s"
  shows "wellFormed (deleteLayer i s)"
proof (cases "layerByID s i")
  case None
  with assms show ?thesis by (simp add: deleteLayer_noop)
next
  case (Some p)
  then have mp: "m_layers s i = Some p" by (auto simp: layerByID_def split: if_splits)
  have live: "\<And>q. heap_get (layerHeap (deleteLayer i s)) q = None \<longleftrightarrow>
      q = p \<or> heap_get (layerHeap s) q = None"
    by (simp add: deleteLayer_heap[OF Some] live_deleteGraphicsLayer)
  have ml: "m_layers (deleteLayer i s) = (m_layers s)(i := None)"
    by (rule deleteLayer_layers[OF Some])
  show ?thesis
    using assms mp unfolding wellFormed_def live ml
    by (auto split: if_splits)
qed

lemma wellFormed_getBackingStore:
  assumes "wellFormed s" "getBackingStore i s = Inr (b, s')"
  shows "wellFormed s'"
proof -
  have w: "wellFormed (ensureLayer i s)" by (rule wellFormed_ensureLayer[OF assms(1)])
  from assms(2) show ?thesis
    by (auto simp: getBackingStore_def Let_def heap_alloc_def split: option.splits if_splits
        intro!: wellFormed_cong[OF w])
qed

lemma wellFormed_storeHeap:
  "wellFormed s \<Longrightarrow> wellFormed (s\<lparr>storeHeap := h\<rparr>)"
  "wellFormed s \<Longrightarrow> wellFormed (s\<lparr>m_backingStoresWithPendingBuffers := P\<rparr>)"
  by (erule wellFormed_cong; simp)+

lemma wellFormed_applyMessage:
  assumes "wellFormed s" "applyMessage m s = Inr s'"
  shows "wellFormed s'"
proof (cases m)
  case (DeleteLayer i)
  with assms show ?thesis by (auto intro: wellFormed_deleteLayer)
next
  case (CreateTile i t sc)
  with assms show ?thesis
    by (auto simp: createTile_def split: sum.splits
        intro!: wellFormed_storeHeap dest: wellFormed_getBackingStore)
next
  case (RemoveTile i t)
  with assms show ?thesis
    by (auto simp: removeTile_def split: sum.splits
        intro!: wellFormed_storeHeap dest: wellFormed_getBackingStore)
next
  case (UpdateTile i t sr tr bm)
  with assms show ?thesis
    by (auto simp: updateTile_def Let_def split: sum.splits
        intro!: wellFormed_storeHeap dest: wellFormed_getBackingStore)
next
  case (CreateImage k bm)
  with assms show ?thesis by (auto intro: wellFormed_cong[OF assms(1)])
next
  case (DestroyImage k)
  with assms show ?thesis by (auto intro: wellFormed_cong[OF assms(1)])
next
  case (SyncLayerParameters info)
  with assms show ?thesis by (auto intro: wellFormed_syncLayerParameters)
next
  case FlushLayerChanges
  with assms show ?thesis
    by (auto dest!: flushLayerChanges_eq intro: wellFormed_cong[OF assms(1)])
next
  case (SetRootLayer i)
  with assms show ?thesis by (auto intro: wellFormed_setRootLayerID)
qed

lemma wellFormed_applyAll:
  "wellFormed s \<Longrightarrow> applyAll ms s = Inr s' \<Longrightarrow> wellFormed s'"
  by (induction ms arbitrary: s) (auto split: sum.splits dest: wellFormed_applyMessage)

lemma ensureRootLayer_present: "m_rootLayer s = Some r \<Longrightarrow> ensureRootLayer s = s"
  by (simp add: ensureRootLayer_def)

lemma heap_get_Cons [simp]:
  "heap_get (x # h) 0 = x"
  "heap_get (x # h) (Suc n) = heap_get h n"
  by (simp_all add: heap_get_def)

lemma wellFormed_new: "wellFormed (ensureRootLayer (LayerTreeHostProxy_new t))"
  by (simp add: wellFormed_def ensureRootLayer_def LayerTreeHostProxy_new_def Let_def
      split_beta createLayer_def heap_alloc_def)

lemma wellFormed_withQueue [simp]: "wellFormed (withQueue q s) = wellFormed s"
  by (simp add: wellFormed_def)

lemma wellFormed_syncRemoteContent:
  assumes "wellFormed s" "syncRemoteContent s = Inr s'"
  shows "wellFormed s'"
proof -
  from assms(1) obtain r where "m_rootLayer s = Some r" unfolding wellFormed_def by blast
  then have "ensureRootLayer s = s" by (rule ensureRootLayer_present)
  with assms(2) have "applyAll (m_messagesToRenderer s) (withQueue [] s) = Inr s'"
    by (simp add: syncRemoteContent_def syncLoop_applyAll del: syncLoop.simps)
  then show ?thesis by (rule wellFormed_applyAll[rotated]) (simp add: assms(1))
qed

subsection \<open>When a message fails\<close>

text \<open>
  The node a descriptor for identifier \<open>i\<close> is applied to: the registered node, or a new
  one when the identifier is not registered.
\<close>

definition targetLayer :: "LayerTreeHostProxy \<Rightarrow> WebLayerID \<Rightarrow> GraphicsLayer option" where
  "targetLayer s i =
    (case m_layers s i of None \<Rightarrow> Some freshLayer | Some p \<Rightarrow> heap_get (layerHeap s) p)"

text \<open>
  A \<open>SyncLayerParameters\<close> whose descriptor triggers the image assignment while its image
  key is not in the registry.
\<close>

definition imageMissing :: "LayerTreeMessageToRenderer \<Rightarrow> LayerTreeHostProxy \<Rightarrow> bool" where
  "imageMissing m s =
    (case m of
       SyncLayerParameters layerInfo \<Rightarrow>
        (case targetLayer s (info_id layerInfo) of
           None \<Rightarrow> False
         | Some layer \<Rightarrow>
            needsToUpdateImageTiles layerInfo layer \<and>
            m_directlyCompositedImages s (info_imageBackingStoreID layerInfo) = None)
     | _ \<Rightarrow> False)"



lemma ensureLayer_target:
  "m_layers (ensureLayer i s) i = Some p \<Longrightarrow>
   heap_get (layerHeap (ensureLayer i s)) p = targetLayer s i"
  by (auto simp: ensureLayer_layers ensureLayer_heap targetLayer_def split: option.splits)

lemma ensureLayer_registered: "m_layers (ensureLayer i s) i \<noteq> None"
  by (auto simp: ensureLayer_layers split: option.split)

lemma wellFormed_live:
  "wellFormed s \<Longrightarrow> m_layers s i = Some p \<Longrightarrow> \<exists>l. heap_get (layerHeap s) p = Some l"
  unfolding wellFormed_def by auto

lemma wellFormed_root: "wellFormed s \<Longrightarrow> \<exists>r. m_rootLayer s = Some r"
  unfolding wellFormed_def by auto

lemma setRootLayerID_succeeds:
  "m_rootLayer s = Some r \<Longrightarrow> \<exists>s'. setRootLayerID i s = Inr s'"
  by (simp add: setRootLayerID_def Let_def split: option.split)

lemma sync_tail_succeeds:
  "m_rootLayer s = Some r \<Longrightarrow> \<exists>s'. sync_tail p info s = Inr s'"
  by (simp add: sync_tail_eq setRootLayerID_succeeds)


lemma syncLayerParameters_succeeds:
  assumes "wellFormed s" "\<not> imageMissing (SyncLayerParameters info) s"
  shows "\<exists>s'. syncLayerParameters info s = Inr s'"
proof -
  let ?s1 = "ensureLayer (info_id info) s"
  obtain p where p: "m_layers ?s1 (info_id info) = Some p"
    using ensureLayer_registered[of "info_id info" s] by blast
  have w: "wellFormed ?s1" by (rule wellFormed_ensureLayer[OF assms(1)])
  from wellFormed_live[OF w p] obtain layer where l: "heap_get (layerHeap ?s1) p = Some layer"
    by blast
  then have t: "targetLayer s (info_id info) = Some layer"
    using ensureLayer_target[OF p] by simp
  from wellFormed_root[OF assms(1)] obtain r where r: "m_rootLayer s = Some r" by blast
  show ?thesis
  proof (cases "needsToUpdateImageTiles info layer")
    case False
    with p l r show ?thesis
      by (simp add: syncLayerParameters_stages Let_def sync_tail_succeeds)
  next
    case True
    with assms(2) t obtain media where
      "m_directlyCompositedImages s (info_imageBackingStoreID info) = Some media"
      by (auto simp: imageMissing_def)
    with p l r True show ?thesis
      by (simp add: syncLayerParameters_stages Let_def assignImageToLayer_def
          sync_tail_succeeds)
  qed
qed





lemma wellFormed_exampleTree: "wellFormed exampleTree"
  by (auto simp: wellFormed_def exampleTree_def heap_get_def split: if_splits)

subsection \<open>The node of a descriptor and the stability of identifiers\<close>

text \<open>
  The scalar and geometry attributes of a node agree with a descriptor: each is the
  descriptor's value, masks-to-bounds being false under the root flag.
\<close>

definition descriptorApplied :: "WebLayerInfo \<Rightarrow> GraphicsLayer \<Rightarrow> bool" where
  "descriptorApplied layerInfo l \<longleftrightarrow>
     m_name l = info_name layerInfo \<and>
     m_position l = info_pos layerInfo \<and>
     m_size l = info_size layerInfo \<and>
     m_transform l = info_transform layerInfo \<and>
     m_anchorPoint l = info_anchorPoint layerInfo \<and>
     m_childrenTransform l = info_childrenTransform layerInfo \<and>
     m_backfaceVisibility l = info_backfaceVisible layerInfo \<and>
     m_contentsOpaque l = info_contentsOpaque layerInfo \<and>
     m_contentsRect l = info_contentsRect layerInfo \<and>
     m_drawsContent l = info_drawsContent layerInfo \<and>
     m_opacity l = info_opacity layerInfo \<and>
     m_preserves3D l = info_preserves3D layerInfo \<and>
     m_masksToBounds l =
       (if info_isRootLayer layerInfo then False else info_masksToBounds layerInfo)"

lemma descriptorApplied_geom: "descriptorApplied info (geom l) = descriptorApplied info l"
  by (simp add: descriptorApplied_def)

lemma descriptorApplied_sync:
  "descriptorApplied info (sync_attrs2 info (sync_node info s1 layer))"
  by (simp add: descriptorApplied_def sync_attrs2_def sync_node_def sync_attrs1_def)

lemma syncLayerParameters_applies:
  assumes "syncLayerParameters info s = Inr s'"
  shows "\<exists>l. m_layers s' (info_id info) =
            Some (case m_layers s (info_id info) of
                    None \<Rightarrow> length (layerHeap s) | Some p \<Rightarrow> p) \<and>
          heap_get (layerHeap s')
            (case m_layers s (info_id info) of
               None \<Rightarrow> length (layerHeap s) | Some p \<Rightarrow> p) = Some l \<and>
          descriptorApplied info l"
proof -
  from syncLayerParameters_node[OF assms] obtain p layer l' where
    p: "m_layers (ensureLayer (info_id info) s) (info_id info) = Some p"
    and m: "m_layers s' (info_id info) = Some p" "heap_get (layerHeap s') p = Some l'"
    and g: "geom l' = geom (sync_attrs2 info
              (sync_node info (ensureLayer (info_id info) s) layer))"
    by blast
  have "descriptorApplied info (geom l')"
    unfolding g by (simp add: descriptorApplied_geom descriptorApplied_sync)
  then have d: "descriptorApplied info l'" by (simp add: descriptorApplied_geom)
  have "p = (case m_layers s (info_id info) of None \<Rightarrow> length (layerHeap s) | Some p \<Rightarrow> p)"
    using p by (auto simp: ensureLayer_layers split: option.splits)
  with m d show ?thesis by auto
qed

lemma ensureLayer_length:
  "length (layerHeap s) \<le> length (layerHeap (ensureLayer i s))"
  by (simp add: ensureLayer_heap)

lemma syncLayerParameters_children:
  assumes "syncLayerParameters info s = Inr s'" "c \<in> set (info_children info)"
    "m_layers s c = None"
  shows "\<exists>q l. m_layers s' c = Some q \<and> length (layerHeap s) \<le> q \<and>
           heap_get (layerHeap s') q = Some l \<and>
           (c \<noteq> info_id info \<longrightarrow> attrs l = attrs freshLayer)"
proof (cases "c = info_id info")
  case True
  from syncLayerParameters_applies[OF assms(1)] True assms(3)
  show ?thesis by auto
next
  case False
  let ?s1 = "ensureLayer (info_id info) s"
  from syncLayerParameters_Inr[OF assms(1)] obtain p layer where
    l: "heap_get (layerHeap ?s1) p = Some layer"
    and t: "sync_tail p info (setLayer p (\<lambda>_. sync_node info ?s1 layer) ?s1) = Inr s'"
    by blast
  let ?s6 = "setLayer p (\<lambda>_. sync_node info ?s1 layer) ?s1"
  let ?s7 = "setLayer p (sync_attrs2 info) ?s6"
  have pl: "p < length (layerHeap ?s1)" using l by (rule heap_get_Some_less)
  have "m_layers ?s7 c = None"
    using False assms(3) by (auto simp: ensureLayer_layers split: option.split)
  from resolveChildren_materializes[OF assms(2) this] obtain q where
    q: "m_layers (snd (resolveChildren (info_children info) ?s7)) c = Some q"
    "length (layerHeap ?s7) \<le> q"
    "q < length (layerHeap (snd (resolveChildren (info_children info) ?s7)))"
    by blast
  have len: "length (layerHeap (sync_children p info ?s6)) =
      length (layerHeap (snd (resolveChildren (info_children info) ?s7)))"
    by (simp add: sync_children_def Let_def fold_applyAnimation_heap)
  have 1: "m_layers s' c = Some q"
    using q(1) by (simp add: sync_tail_Inr(3)[OF t] sync_children_layers)
  have 2: "length (layerHeap s) \<le> q"
    using q(2) ensureLayer_length[of s "info_id info"] by simp
  have qp: "q \<noteq> p" using q(2) pl by simp
  have "map_option attrs (heap_get (layerHeap s') q) =
      map_option attrs (heap_get (layerHeap (sync_children p info ?s6)) q)"
    by (rule sync_tail_Inr(5)[OF t])
  also have "\<dots> = Some (attrs freshLayer)"
    using q(2,3) by (simp add: sync_children_attrs_other[OF qp] len)
  finally obtain l' where "heap_get (layerHeap s') q = Some l'" "attrs l' = attrs freshLayer"
    by auto
  with 1 2 show ?thesis by blast
qed

lemma applyMessage_layers_stable:
  assumes "applyMessage m s = Inr s'" "m \<noteq> DeleteLayer i" "m_layers s i = Some p"
  shows "m_layers s' i = Some p"
proof (cases m)
  case (DeleteLayer j)
  with assms(2) have ji: "j \<noteq> i" by simp
  show ?thesis
  proof (cases "layerByID s j")
    case None
    with assms DeleteLayer show ?thesis by (simp add: deleteLayer_noop)
  next
    case (Some q)
    with assms DeleteLayer ji show ?thesis by (auto simp: deleteLayer_layers)
  qed
next
  case (SyncLayerParameters info)
  with assms have a: "syncLayerParameters info s = Inr s'" by simp
  from syncLayerParameters_Inr[OF a] obtain q s6 where
    t: "sync_tail q info s6 = Inr s'" and m: "m_layers s6 = m_layers (ensureLayer (info_id info) s)"
    by (metis setLayer_frame(4))
  have "m_layers (sync_children q info s6) i = Some p"
    by (intro sync_children_layers_mono) (simp add: m ensureLayer_layers_mono assms(3))
  then show ?thesis using sync_tail_Inr(3)[OF t] by simp
next
  case (SetRootLayer j)
  with assms show ?thesis by (auto dest: setRootLayerID_frame)
next
  case FlushLayerChanges
  with assms show ?thesis by (auto dest!: flushLayerChanges_eq)
next
  case (CreateTile j t sc)
  with assms show ?thesis by (auto dest!: createTile_frame(10) simp: ensureLayer_layers_mono)
next
  case (RemoveTile j t)
  with assms show ?thesis by (auto dest!: removeTile_frame(10) simp: ensureLayer_layers_mono)
next
  case (UpdateTile j t sr tr bm)
  with assms show ?thesis by (auto dest!: updateTile_frame(9) simp: ensureLayer_layers_mono)
qed (use assms in auto)

subsection \<open>Pending buffers and the flush\<close>

lemma heap_get_swapped:
  "heap_get (map (\<lambda>(b, cell). if b \<in> P then map_option f cell else cell) (enumerate 0 h)) b =
     (if b \<in> P then map_option f (heap_get h b) else heap_get h b)"
  by (auto simp: heap_get_def nth_enumerate_eq)

lemma swapBuffers_store:
  "heap_get (storeHeap (swapBuffers s)) b =
     (if b \<in> m_backingStoresWithPendingBuffers s
      then map_option LayerBackingStore_swapBuffers (heap_get (storeHeap s) b)
      else heap_get (storeHeap s) b)"
  by (simp add: swapBuffers_def heap_get_swapped)


lemma LayerBackingStore_swapBuffers_promotes:
  "bs_tiles bs t = Some tile \<Longrightarrow>
   \<exists>tile'. bs_tiles (LayerBackingStore_swapBuffers bs) t = Some tile' \<and>
      tile_backBuffer tile' = None \<and>
      tile_visible tile' =
        (case tile_backBuffer tile of None \<Rightarrow> tile_visible tile | Some c \<Rightarrow> Some c) \<and>
      tile_scale tile' = tile_scale tile"
  by (auto simp: LayerBackingStore_swapBuffers_def LayerBackingStoreTile_swapBuffers_def
      split: option.split)

lemma flushLayerChanges_succeeds:
  "m_rootLayer s = Some r \<Longrightarrow>
   flushLayerChanges s = Inr (send RenderNextFrame (swapBuffers s))"
  by (simp add: flushLayerChanges_def syncCompositingState_def)

lemma applyAll_append:
  "applyAll (xs @ ys) s = (case applyAll xs s of Inl e \<Rightarrow> Inl e | Inr s1 \<Rightarrow> applyAll ys s1)"
  by (induction xs arbitrary: s) (auto split: sum.splits)

lemma applyMessage_pending:
  assumes "applyMessage m s = Inr s'" "m \<noteq> FlushLayerChanges"
  shows "m_backingStoresWithPendingBuffers s \<subseteq> m_backingStoresWithPendingBuffers s'"
    and "sentMessages s' = sentMessages s"
  using assms
  by (cases m; auto dest: setRootLayerID_frame syncLayerParameters_frame createTile_frame
        removeTile_frame updateTile_frame)+

lemma applyAll_pending:
  "applyAll ms s = Inr s' \<Longrightarrow> FlushLayerChanges \<notin> set ms \<Longrightarrow>
   m_backingStoresWithPendingBuffers s \<subseteq> m_backingStoresWithPendingBuffers s' \<and>
   sentMessages s' = sentMessages s"
proof (induction ms arbitrary: s)
  case Nil
  then show ?case by simp
next
  case (Cons m ms)
  from Cons.prems obtain s1 where s1: "applyMessage m s = Inr s1" "applyAll ms s1 = Inr s'"
    by (auto split: sum.splits)
  from Cons.prems(2) have "m \<noteq> FlushLayerChanges" "FlushLayerChanges \<notin> set ms" by auto
  with applyMessage_pending[OF s1(1)] Cons.IH[OF s1(2)] show ?case by auto
qed

lemma getBackingStore_store:
  assumes "getBackingStore i s = Inr (b, s1)"
  shows "\<exists>p l. m_layers s1 i = Some p \<and> heap_get (layerHeap s1) p = Some l \<and>
           m_backingStore l = Some b"
  using assms
  by (auto simp: getBackingStore_def Let_def layerByID_def heap_alloc_def
      split: option.splits if_splits)

lemma LayerBackingStore_updateTile_pending:
  "bs_tiles (LayerBackingStore_updateTile t sr tr bm bs) t = Some tile \<Longrightarrow>
   tile_backBuffer tile = Some \<lparr> tc_sourceRect = sr, tc_targetRect = tr, tc_bitmap = bm \<rparr>"
  by (auto simp: LayerBackingStore_updateTile_def split: option.splits)

lemma updateTile_registers:
  assumes "updateTile i t sr tr bm s = Inr s1"
  shows "\<exists>p l b. m_layers s1 i = Some p \<and> heap_get (layerHeap s1) p = Some l \<and>
           m_backingStore l = Some b \<and> b \<in> m_backingStoresWithPendingBuffers s1 \<and>
           (\<forall>bs tile. heap_get (storeHeap s1) b = Some bs \<and> bs_tiles bs t = Some tile \<longrightarrow>
              tile_backBuffer tile =
                Some \<lparr> tc_sourceRect = sr, tc_targetRect = tr, tc_bitmap = bm \<rparr>)"
proof -
  from assms obtain b s0 where g: "getBackingStore i s = Inr (b, s0)"
    and s1: "s1 = s0\<lparr>storeHeap := heap_upd b (LayerBackingStore_updateTile t sr tr bm)
                      (storeHeap s0),
                  m_backingStoresWithPendingBuffers :=
                    insert b (m_backingStoresWithPendingBuffers s0)\<rparr>"
    by (auto simp: updateTile_def Let_def split: sum.splits)
  from getBackingStore_store[OF g] obtain p l where
    "m_layers s0 i = Some p" "heap_get (layerHeap s0) p = Some l" "m_backingStore l = Some b"
    by blast
  moreover have "\<forall>bs tile. heap_get (storeHeap s1) b = Some bs \<and> bs_tiles bs t = Some tile \<longrightarrow>
              tile_backBuffer tile =
                Some \<lparr> tc_sourceRect = sr, tc_targetRect = tr, tc_bitmap = bm \<rparr>"
    by (auto simp: s1 dest: LayerBackingStore_updateTile_pending)
  ultimately show ?thesis by (auto simp: s1)
qed

lemmas tile_defs = createTile_def removeTile_def updateTile_def getBackingStore_def
  LayerBackingStore_create_def LayerBackingStore_createTile_def
  LayerBackingStore_removeTile_def LayerBackingStore_updateTile_def
  LayerBackingStore_swapBuffers_def LayerBackingStoreTile_swapBuffers_def

subsection \<open>purgeGLResources\<close>

text \<open>
  The nodes of the tree under \<open>r\<close>: \<open>r\<close> itself and every node reached from it through
  child lists.
\<close>

inductive descendant :: "GraphicsLayer heap \<Rightarrow> layer_ptr \<Rightarrow> layer_ptr \<Rightarrow> bool"
  for h :: "GraphicsLayer heap" and r :: layer_ptr where
  self: "descendant h r r"
| child: "descendant h r q \<Longrightarrow> heap_get h q = Some l \<Longrightarrow> c \<in> set (m_children l) \<Longrightarrow>
          descendant h r c"

text \<open>
  Modelled from the spec: \<open>clearBackingStoresRecursive\<close> is a member of TextureMapperLayer
  (not under src/). It clears the backing store of the node it is called on and,
  recursively, of the nodes under it.
\<close>

definition clearBackingStoresRecursive :: "layer_ptr \<Rightarrow> GraphicsLayer heap \<Rightarrow> GraphicsLayer heap" where
  "clearBackingStoresRecursive r h =
    map (\<lambda>(p, cell). if descendant h r p
                       then map_option (\<lambda>l. l\<lparr>m_backingStore := None\<rparr>) cell else cell)
      (enumerate 0 h)"




lemma clearBackingStoresRecursive_length [simp]:
  "length (clearBackingStoresRecursive r h) = length h"
  by (simp add: clearBackingStoresRecursive_def)






subsection \<open>Replaying a batch\<close>

























section \<open>The scrolling tree of ScrollingTree.h\<close>

text \<open>
  ScrollingTree.h declares the result type, the members and the member functions of
  \<open>ScrollingTree\<close>; the bodies (ScrollingTree.cpp), \<open>Region\<close>, \<open>PlatformWheelEvent\<close> and
  \<open>ScrollingTreeNode\<close> are not under src/. The record below has the members of the
  header. A region is the list of its rectangles; a node has a rectangle, a scroll
  position and child nodes.
\<close>

datatype EventResult = DidNotHandleEvent | DidHandleEvent | SendToMainThread

record PlatformWheelEvent =
  wheel_position :: IntPoint
  wheel_deltaX :: int
  wheel_deltaY :: int

datatype ScrollingTreeNode =
  ScrollingTreeNode (node_rect: IntRect) (node_scrollPosition: IntPoint)
    (node_children: "ScrollingTreeNode list")

type_synonym Region = "IntRect list"

record ScrollingTree =
  m_rootNode :: "ScrollingTreeNode option"
  m_nonFastScrollableRegion :: Region
  m_mainFrameScrollPosition :: IntPoint
  m_hasWheelEventHandlers :: bool
  m_canGoBack :: bool
  m_canGoForward :: bool
  m_mainFramePinnedToTheLeft :: bool
  m_mainFramePinnedToTheRight :: bool

definition IntRect_contains :: "IntRect \<Rightarrow> IntPoint \<Rightarrow> bool" where
  "IntRect_contains r p \<longleftrightarrow>
     rect_x r \<le> fst p \<and> fst p < rect_x r + rect_width r \<and>
     rect_y r \<le> snd p \<and> snd p < rect_y r + rect_height r"

definition Region_contains :: "Region \<Rightarrow> IntPoint \<Rightarrow> bool" where
  "Region_contains region p = list_ex (\<lambda>r. IntRect_contains r p) region"

text \<open>
  Modelled from the spec: resolving a scrollable node at a point and applying the scroll
  delta to its position. The innermost node whose rectangle holds the point takes the
  delta; the result is the tree with that node scrolled, or nothing when no node holds
  the point.
\<close>

fun scrollNodeAt :: "IntPoint \<Rightarrow> int \<times> int \<Rightarrow> ScrollingTreeNode \<Rightarrow> ScrollingTreeNode option"
  and scrollNodesAt :: "IntPoint \<Rightarrow> int \<times> int \<Rightarrow> ScrollingTreeNode list \<Rightarrow> ScrollingTreeNode list option"
  where
  "scrollNodeAt p d (ScrollingTreeNode r pos cs) =
     (if IntRect_contains r p
      then (case scrollNodesAt p d cs of
              Some cs' \<Rightarrow> Some (ScrollingTreeNode r pos cs')
            | None \<Rightarrow> Some (ScrollingTreeNode r (fst pos + fst d, snd pos + snd d) cs))
      else None)"
| "scrollNodesAt p d [] = None"
| "scrollNodesAt p d (c # cs) =
     (case scrollNodeAt p d c of
        Some c' \<Rightarrow> Some (c' # cs)
      | None \<Rightarrow> map_option (\<lambda>cs'. c # cs') (scrollNodesAt p d cs))"

text \<open>
  Modelled from the spec: the pin state refuses a horizontal delta that would scroll past
  the edge the main frame is pinned to.
\<close>

definition pinnedDelta :: "ScrollingTree \<Rightarrow> PlatformWheelEvent \<Rightarrow> int \<times> int" where
  "pinnedDelta t e =
    ((if m_mainFramePinnedToTheLeft t \<and> wheel_deltaX e < 0 then 0
      else if m_mainFramePinnedToTheRight t \<and> wheel_deltaX e > 0 then 0
      else wheel_deltaX e),
     wheel_deltaY e)"

text \<open>
  Modelled from the spec: \<open>ScrollingTree::tryToHandleWheelEvent\<close> (ScrollingTree.cpp is not
  under src/), the three steps of the spec's event routing in their order. (1) A point
  inside the non-fast-scrollable region: \<open>SendToMainThread\<close>. (2) Otherwise a scrollable
  node at the point takes the delta: \<open>DidHandleEvent\<close>. (3) No node applies: a wheel
  event handler intercepts (\<open>SendToMainThread\<close>), or else \<open>DidNotHandleEvent\<close>.
\<close>

definition tryToHandleWheelEvent :: "PlatformWheelEvent \<Rightarrow> ScrollingTree \<Rightarrow> EventResult \<times> ScrollingTree" where
  "tryToHandleWheelEvent wheelEvent t =
    (if Region_contains (m_nonFastScrollableRegion t) (wheel_position wheelEvent)
     then (SendToMainThread, t)
     else
       (case (case m_rootNode t of
                None \<Rightarrow> None
              | Some rootNode \<Rightarrow> scrollNodeAt (wheel_position wheelEvent)
                               (pinnedDelta t wheelEvent) rootNode) of
          Some rootNode' \<Rightarrow> (DidHandleEvent, t\<lparr>m_rootNode := Some rootNode'\<rparr>)
        | None \<Rightarrow>
           if m_hasWheelEventHandlers t then (SendToMainThread, t)
           else (DidNotHandleEvent, t)))"

text \<open>A tree with one scrollable node over the rectangle from (0, 0) to (100, 100).\<close>

definition exampleScrollingTree :: "Region \<Rightarrow> ScrollingTree" where
  "exampleScrollingTree region =
    \<lparr> m_rootNode = Some (ScrollingTreeNode (IntRect 0 0 100 100) (0, 0) []),
      m_nonFastScrollableRegion = region, m_mainFrameScrollPosition = (0, 0),
      m_hasWheelEventHandlers = False, m_canGoBack = False, m_canGoForward = False,
      m_mainFramePinnedToTheLeft = False, m_mainFramePinnedToTheRight = False \<rparr>"

section \<open>Claims\<close>

text \<open>
  C1. Pushing commands appends them to the queue in the order pushed. The drain loop
  \<open>syncRemoteContent\<close> applies the queued commands one at a time, oldest first, each
  exactly once: it computes what \<open>applyAll\<close> computes on the queue's content, starting
  from the state with the root container ensured. When it returns, the queue is empty.
\<close>

theorem syncRemoteContent_fifo:
  "m_messagesToRenderer (fold pushUpdateToQueue cmds s) = m_messagesToRenderer s @ cmds \<and>
   syncRemoteContent s = applyAll (m_messagesToRenderer s) (withQueue [] (ensureRootLayer s)) \<and>
   (\<forall>s'. syncRemoteContent s = Inr s' \<longrightarrow> m_messagesToRenderer s' = [])"
proof (intro conjI allI impI)
  show "m_messagesToRenderer (fold pushUpdateToQueue cmds s) = m_messagesToRenderer s @ cmds"
    by (rule fold_pushUpdateToQueue_queue)
  show eq: "syncRemoteContent s =
      applyAll (m_messagesToRenderer s) (withQueue [] (ensureRootLayer s))"
    by (simp add: syncRemoteContent_def syncLoop_applyAll del: syncLoop.simps)
  fix s' assume "syncRemoteContent s = Inr s'"
  with eq have "applyAll (m_messagesToRenderer s) (withQueue [] (ensureRootLayer s)) = Inr s'"
    by simp
  from applyAll_queue[OF this] show "m_messagesToRenderer s' = []" by simp
qed

theorem syncRemoteContent_fifo_witness:
  "m_messagesToRenderer (fold pushUpdateToQueue [SetRootLayer 1, SetRootLayer 2, FlushLayerChanges]
      (LayerTreeHostProxy_new 0)) = [SetRootLayer 1, SetRootLayer 2, FlushLayerChanges] \<and>
   (\<exists>s'. syncRemoteContent (fold pushUpdateToQueue
              [SetRootLayer 1, SetRootLayer 2, FlushLayerChanges]
              (LayerTreeHostProxy_new 0)) = Inr s' \<and>
      m_messagesToRenderer s' = [] \<and> m_rootLayerID s' = 2 \<and>
      sentMessages s' = [RenderNextFrame])"
  using syncRemoteContent_fifo[of "[SetRootLayer 1, SetRootLayer 2, FlushLayerChanges]"
      "LayerTreeHostProxy_new 0"]
    syncRemoteContent_fifo[of "[]" "fold pushUpdateToQueue
      [SetRootLayer 1, SetRootLayer 2, FlushLayerChanges] (LayerTreeHostProxy_new 0)"]
  by (simp add: eval_defs del: syncLoop.simps)

text \<open>
  C2. \<open>UpdateTile\<close> puts the backing store of its layer into the pending set, with the new
  content as the tile's back buffer. No message other than \<open>FlushLayerChanges\<close> takes a
  store out of the pending set or sends anything to the web process. With the root
  container in place, \<open>FlushLayerChanges\<close> succeeds; it swaps every store of the pending
  set, so that in each of them every tile has no back buffer left and shows what its back
  buffer held; it leaves the pending set empty and sends one \<open>RenderNextFrame\<close>. Hence a
  batch \<open>UpdateTile\<close>, messages without a flush, \<open>FlushLayerChanges\<close> ends with the
  updated store swapped, nothing pending, and exactly one message sent.
\<close>

theorem flushLayerChanges_swaps_pending_and_signals:
  "(m_rootLayer s \<noteq> None \<longrightarrow>
      (\<exists>s'. flushLayerChanges s = Inr s' \<and>
         m_backingStoresWithPendingBuffers s' = {} \<and>
         sentMessages s' = sentMessages s @ [RenderNextFrame] \<and>
         layerHeap s' = layerHeap s \<and>
         (\<forall>b. b \<notin> m_backingStoresWithPendingBuffers s \<longrightarrow>
            heap_get (storeHeap s') b = heap_get (storeHeap s) b) \<and>
         (\<forall>b \<in> m_backingStoresWithPendingBuffers s. \<forall>bs. heap_get (storeHeap s) b = Some bs \<longrightarrow>
            heap_get (storeHeap s') b = Some (LayerBackingStore_swapBuffers bs) \<and>
            (\<forall>t tile. bs_tiles bs t = Some tile \<longrightarrow>
               (\<exists>tile'. bs_tiles (LayerBackingStore_swapBuffers bs) t = Some tile' \<and>
                  tile_backBuffer tile' = None \<and>
                  tile_visible tile' =
                    (case tile_backBuffer tile of
                       None \<Rightarrow> tile_visible tile | Some c \<Rightarrow> Some c)))))) \<and>
   (updateTile i t sr tr bm u = Inr u1 \<longrightarrow>
      (\<exists>p l b. m_layers u1 i = Some p \<and> heap_get (layerHeap u1) p = Some l \<and>
         m_backingStore l = Some b \<and> b \<in> m_backingStoresWithPendingBuffers u1 \<and>
         (\<forall>bs tile. heap_get (storeHeap u1) b = Some bs \<and> bs_tiles bs t = Some tile \<longrightarrow>
            tile_backBuffer tile =
              Some \<lparr> tc_sourceRect = sr, tc_targetRect = tr, tc_bitmap = bm \<rparr>))) \<and>
   (FlushLayerChanges \<notin> set ms \<and> applyAll ms v = Inr v' \<longrightarrow>
      m_backingStoresWithPendingBuffers v \<subseteq> m_backingStoresWithPendingBuffers v' \<and>
      sentMessages v' = sentMessages v) \<and>
   (FlushLayerChanges \<notin> set ms \<and>
    applyAll (UpdateTile i t sr tr bm # ms @ [FlushLayerChanges]) w = Inr w' \<longrightarrow>
      m_backingStoresWithPendingBuffers w' = {} \<and>
      sentMessages w' = sentMessages w @ [RenderNextFrame] \<and>
      (\<exists>w1 w2 b. updateTile i t sr tr bm w = Inr w1 \<and>
         b \<in> m_backingStoresWithPendingBuffers w1 \<and> applyAll ms w1 = Inr w2 \<and>
         heap_get (storeHeap w') b =
           map_option LayerBackingStore_swapBuffers (heap_get (storeHeap w2) b)))"
proof (intro conjI impI)
  assume "m_rootLayer s \<noteq> None"
  then obtain r where "m_rootLayer s = Some r" by blast
  from flushLayerChanges_succeeds[OF this]
  show "\<exists>s'. flushLayerChanges s = Inr s' \<and>
         m_backingStoresWithPendingBuffers s' = {} \<and>
         sentMessages s' = sentMessages s @ [RenderNextFrame] \<and>
         layerHeap s' = layerHeap s \<and>
         (\<forall>b. b \<notin> m_backingStoresWithPendingBuffers s \<longrightarrow>
            heap_get (storeHeap s') b = heap_get (storeHeap s) b) \<and>
         (\<forall>b \<in> m_backingStoresWithPendingBuffers s. \<forall>bs. heap_get (storeHeap s) b = Some bs \<longrightarrow>
            heap_get (storeHeap s') b = Some (LayerBackingStore_swapBuffers bs) \<and>
            (\<forall>t tile. bs_tiles bs t = Some tile \<longrightarrow>
               (\<exists>tile'. bs_tiles (LayerBackingStore_swapBuffers bs) t = Some tile' \<and>
                  tile_backBuffer tile' = None \<and>
                  tile_visible tile' =
                    (case tile_backBuffer tile of
                       None \<Rightarrow> tile_visible tile | Some c \<Rightarrow> Some c))))"
    using LayerBackingStore_swapBuffers_promotes
    by (simp add: swapBuffers_store) blast
next
  assume "updateTile i t sr tr bm u = Inr u1"
  from updateTile_registers[OF this]
  show "\<exists>p l b. m_layers u1 i = Some p \<and> heap_get (layerHeap u1) p = Some l \<and>
         m_backingStore l = Some b \<and> b \<in> m_backingStoresWithPendingBuffers u1 \<and>
         (\<forall>bs tile. heap_get (storeHeap u1) b = Some bs \<and> bs_tiles bs t = Some tile \<longrightarrow>
            tile_backBuffer tile =
              Some \<lparr> tc_sourceRect = sr, tc_targetRect = tr, tc_bitmap = bm \<rparr>)" .
next
  assume a: "FlushLayerChanges \<notin> set ms \<and> applyAll ms v = Inr v'"
  from applyAll_pending[of ms v v'] a
  show "m_backingStoresWithPendingBuffers v \<subseteq> m_backingStoresWithPendingBuffers v'"
    and "sentMessages v' = sentMessages v" by auto
next
  assume a: "FlushLayerChanges \<notin> set ms \<and>
    applyAll (UpdateTile i t sr tr bm # ms @ [FlushLayerChanges]) w = Inr w'"
  then obtain w1 w2 where w1: "updateTile i t sr tr bm w = Inr w1"
    and w2: "applyAll ms w1 = Inr w2" and f: "flushLayerChanges w2 = Inr w'"
    by (auto simp: applyAll_append split: sum.splits)
  from updateTile_registers[OF w1] obtain b where b: "b \<in> m_backingStoresWithPendingBuffers w1"
    by blast
  from applyAll_pending[OF w2] a have p: "b \<in> m_backingStoresWithPendingBuffers w2"
    "sentMessages w2 = sentMessages w1" using b by auto
  have s1: "sentMessages w1 = sentMessages w" by (rule updateTile_frame(6)[OF w1])
  have e: "w' = send RenderNextFrame (swapBuffers w2)" by (rule flushLayerChanges_eq[OF f])
  show "m_backingStoresWithPendingBuffers w' = {}" by (simp add: e)
  show "sentMessages w' = sentMessages w @ [RenderNextFrame]" by (simp add: e p s1)
  have "heap_get (storeHeap w') b =
           map_option LayerBackingStore_swapBuffers (heap_get (storeHeap w2) b)"
    using p(1) by (simp add: e swapBuffers_store)
  with w1 w2 b show "\<exists>w1 w2 b. updateTile i t sr tr bm w = Inr w1 \<and>
         b \<in> m_backingStoresWithPendingBuffers w1 \<and> applyAll ms w1 = Inr w2 \<and>
         heap_get (storeHeap w') b =
           map_option LayerBackingStore_swapBuffers (heap_get (storeHeap w2) b)" by blast
qed


theorem flushLayerChanges_swaps_pending_and_signals_witness:
  "\<exists>w w' bs tile.
     applyMessage (CreateTile 2 9 float_1) exampleTree = Inr w \<and>
     applyAll [UpdateTile 2 9 (IntRect 0 0 8 8) (IntRect 0 0 8 8) 42, SetRootLayer 1,
               FlushLayerChanges] w = Inr w' \<and>
     m_backingStoresWithPendingBuffers w' = {} \<and>
     sentMessages w' = [RenderNextFrame] \<and>
     heap_get (storeHeap w') 0 = Some bs \<and> bs_tiles bs 9 = Some tile \<and>
     tile_backBuffer tile = None \<and>
     tile_visible tile = Some \<lparr> tc_sourceRect = IntRect 0 0 8 8,
        tc_targetRect = IntRect 0 0 8 8, tc_bitmap = 42 \<rparr>"
proof -
  let ?ms = "[SetRootLayer 1]"
  let ?batch = "[UpdateTile 2 9 (IntRect 0 0 8 8) (IntRect 0 0 8 8) 42, SetRootLayer 1,
               FlushLayerChanges]"
  have "\<exists>w. applyMessage (CreateTile 2 9 float_1) exampleTree = Inr w \<and> sentMessages w = []"
    by (simp add: exampleTree_def eval_defs tile_defs)
  then obtain w where w: "applyMessage (CreateTile 2 9 float_1) exampleTree = Inr w"
    "sentMessages w = []" by blast
  have "\<exists>w' bs tile. (case applyMessage (CreateTile 2 9 float_1) exampleTree of
            Inl e \<Rightarrow> Inl e | Inr w \<Rightarrow> applyAll ?batch w) = Inr w' \<and>
     heap_get (storeHeap w') 0 = Some bs \<and> bs_tiles bs 9 = Some tile \<and>
     tile_backBuffer tile = None \<and>
     tile_visible tile = Some \<lparr> tc_sourceRect = IntRect 0 0 8 8,
        tc_targetRect = IntRect 0 0 8 8, tc_bitmap = 42 \<rparr>"
    by (simp add: exampleTree_def eval_defs tile_defs)
  then obtain w' bs tile where w': "applyAll ?batch w = Inr w'"
    and t: "heap_get (storeHeap w') 0 = Some bs" "bs_tiles bs 9 = Some tile"
     "tile_backBuffer tile = None"
     "tile_visible tile = Some \<lparr> tc_sourceRect = IntRect 0 0 8 8,
        tc_targetRect = IntRect 0 0 8 8, tc_bitmap = 42 \<rparr>"
    using w(1) by auto
  have "FlushLayerChanges \<notin> set ?ms \<and>
    applyAll (UpdateTile 2 9 (IntRect 0 0 8 8) (IntRect 0 0 8 8) 42 # ?ms @ [FlushLayerChanges]) w
      = Inr w'"
    using w' by simp
  from flushLayerChanges_swaps_pending_and_signals[where ms = ?ms and w = w and w' = w'
      and i = 2 and t = 9 and sr = "IntRect 0 0 8 8" and tr = "IntRect 0 0 8 8" and bm = 42,
      THEN conjunct2, THEN conjunct2, THEN conjunct2, rule_format, OF this]
  have "m_backingStoresWithPendingBuffers w' = {}"
    "sentMessages w' = sentMessages w @ [RenderNextFrame]" by auto
  with w w' t show ?thesis by auto
qed

text \<open>
  C3. A successful \<open>SyncLayerParameters\<close> for an identifier with no node creates a node
  (at a pointer not allocated before), registers it under the identifier and applies the
  descriptor to it; for an identifier that has the node \<open>p\<close> it applies the descriptor
  to \<open>p\<close>, which stays registered. Each child identifier of the descriptor that is not
  registered is registered afterwards with a node of its own, created by this command,
  with the attributes of an untouched node. No message other than \<open>DeleteLayer\<close> of an
  identifier changes the node the identifier is registered with, and in a well-formed
  state that node stays alive.
\<close>

theorem syncLayerParameters_materializes_stable:
  "(syncLayerParameters layerInfo s = Inr s' \<longrightarrow>
      (\<exists>l. m_layers s' (info_id layerInfo) =
              Some (case m_layers s (info_id layerInfo) of
                      None \<Rightarrow> length (layerHeap s) | Some p \<Rightarrow> p) \<and>
            heap_get (layerHeap s')
              (case m_layers s (info_id layerInfo) of
                 None \<Rightarrow> length (layerHeap s) | Some p \<Rightarrow> p) = Some l \<and>
            descriptorApplied layerInfo l) \<and>
      (\<forall>c \<in> set (info_children layerInfo). m_layers s c = None \<longrightarrow>
         (\<exists>q l. m_layers s' c = Some q \<and> length (layerHeap s) \<le> q \<and>
            heap_get (layerHeap s') q = Some l \<and>
            (c \<noteq> info_id layerInfo \<longrightarrow> attrs l = attrs freshLayer)))) \<and>
   (applyMessage m t = Inr t' \<and> m \<noteq> DeleteLayer i \<and> m_layers t i = Some p \<longrightarrow>
      m_layers t' i = Some p \<and>
      (wellFormed t \<longrightarrow> heap_get (layerHeap t') p \<noteq> None))"
proof (intro conjI impI ballI)
  assume a: "syncLayerParameters layerInfo s = Inr s'"
  from syncLayerParameters_applies[OF a]
  show "\<exists>l. m_layers s' (info_id layerInfo) =
              Some (case m_layers s (info_id layerInfo) of
                      None \<Rightarrow> length (layerHeap s) | Some p \<Rightarrow> p) \<and>
            heap_get (layerHeap s')
              (case m_layers s (info_id layerInfo) of
                 None \<Rightarrow> length (layerHeap s) | Some p \<Rightarrow> p) = Some l \<and>
            descriptorApplied layerInfo l" .
  fix c assume "c \<in> set (info_children layerInfo)" "m_layers s c = None"
  from syncLayerParameters_children[OF a this]
  show "\<exists>q l. m_layers s' c = Some q \<and> length (layerHeap s) \<le> q \<and>
            heap_get (layerHeap s') q = Some l \<and>
            (c \<noteq> info_id layerInfo \<longrightarrow> attrs l = attrs freshLayer)" .
next
  assume b: "applyMessage m t = Inr t' \<and> m \<noteq> DeleteLayer i \<and> m_layers t i = Some p"
  then show st: "m_layers t' i = Some p" by (auto intro: applyMessage_layers_stable)
  assume "wellFormed t"
  with b have "wellFormed t'" by (auto intro: wellFormed_applyMessage)
  from wellFormed_live[OF this st] show "heap_get (layerHeap t') p \<noteq> None" by auto
qed


theorem syncLayerParameters_materializes_stable_witness:
  "\<exists>s' s'' q.
     m_layers exampleTree 5 = None \<and> m_layers exampleTree 6 = None \<and>
     syncLayerParameters ((defaultLayerInfo 5)\<lparr>info_children := [6],
         info_opacity := float_half\<rparr>) exampleTree = Inr s' \<and>
     m_layers s' 5 = Some 3 \<and>
     map_option m_opacity (heap_get (layerHeap s') 3) = Some float_half \<and>
     m_layers s' 6 = Some q \<and> 3 \<le> q \<and>
     syncLayerParameters ((defaultLayerInfo 6)\<lparr>info_opacity := float_0\<rparr>) s' = Inr s'' \<and>
     m_layers s'' 6 = Some q \<and>
     map_option m_opacity (heap_get (layerHeap s'') q) = Some float_0 \<and>
     m_layers s'' 5 = Some 3 \<and> heap_get (layerHeap s'') 3 \<noteq> None"
proof -
  let ?i5 = "(defaultLayerInfo 5)\<lparr>info_children := [6], info_opacity := float_half\<rparr>"
  let ?i6 = "(defaultLayerInfo 6)\<lparr>info_opacity := float_0\<rparr>"
  note main = syncLayerParameters_materializes_stable
  have e: "m_layers exampleTree 5 = None" "m_layers exampleTree 6 = None"
    "length (layerHeap exampleTree) = 3"
    by (simp_all add: exampleTree_def)
  have "\<not> imageMissing (SyncLayerParameters ?i5) exampleTree"
    by (simp add: imageMissing_def needsToUpdateImageTiles_def defaultLayerInfo_def
        targetLayer_def e freshLayer_def newGraphicsLayer_def)
  from syncLayerParameters_succeeds[OF wellFormed_exampleTree this]
  obtain s' where s': "syncLayerParameters ?i5 exampleTree = Inr s'" by blast
  have w': "wellFormed s'" by (rule wellFormed_syncLayerParameters[OF wellFormed_exampleTree s'])
  from main[where layerInfo = ?i5 and s = exampleTree and s' = s', THEN conjunct1, rule_format, OF s']
  obtain l where a: "m_layers s' 5 = Some 3" "heap_get (layerHeap s') 3 = Some l"
    "descriptorApplied ?i5 l"
    and c: "\<forall>c \<in> set (info_children ?i5). m_layers exampleTree c = None \<longrightarrow>
         (\<exists>q l. m_layers s' c = Some q \<and> length (layerHeap exampleTree) \<le> q \<and>
            heap_get (layerHeap s') q = Some l \<and>
            (c \<noteq> info_id ?i5 \<longrightarrow> attrs l = attrs freshLayer))"
    by (auto simp: e defaultLayerInfo_def)
  from c obtain q where q: "m_layers s' 6 = Some q" "3 \<le> q"
    by (auto simp: e defaultLayerInfo_def)
  have "\<not> imageMissing (SyncLayerParameters ?i6) s'"
    by (simp add: imageMissing_def needsToUpdateImageTiles_def defaultLayerInfo_def
        split: option.split)
  from syncLayerParameters_succeeds[OF w' this]
  obtain s'' where s'': "syncLayerParameters ?i6 s' = Inr s''" by blast
  from main[where layerInfo = ?i6 and s = s' and s' = s'', THEN conjunct1, rule_format, OF s'']
  obtain l6 where b: "m_layers s'' 6 = Some q" "heap_get (layerHeap s'') q = Some l6"
    "descriptorApplied ?i6 l6"
    by (auto simp: q defaultLayerInfo_def)
  have "applyMessage (SyncLayerParameters ?i6) s' = Inr s'' \<and>
      SyncLayerParameters ?i6 \<noteq> DeleteLayer 5 \<and> m_layers s' 5 = Some 3"
    using s'' a(1) by simp
  from main[where m = "SyncLayerParameters ?i6" and t = s' and t' = s'' and i = 5 and p = 3,
      THEN conjunct2, rule_format, OF this] w'
  have d: "m_layers s'' 5 = Some 3" "heap_get (layerHeap s'') 3 \<noteq> None" by auto
  have "m_opacity l = float_half" "m_opacity l6 = float_0"
    using a(3) b(3) by (simp_all add: descriptorApplied_def defaultLayerInfo_def)
  with e s' a q s'' b d show ?thesis by auto
qed




text \<open>
  C5, as amended. Whether \<open>syncLayerParameters\<close> forces masks-to-bounds to false is decided
  by the flag \<open>isRootLayer\<close> of the incoming descriptor, not by the identifier that is
  root when the command arrives. After a successful \<open>syncLayerParameters\<close> the node of
  the descriptor's identifier has masks-to-bounds false when the descriptor is flagged
  root, whatever the descriptor's \<open>masksToBounds\<close>, and then that identifier is the
  root identifier; with the flag unset the node has the descriptor's \<open>masksToBounds\<close>.
\<close>

theorem syncLayerParameters_masksToBounds:
  "syncLayerParameters layerInfo s = Inr s' \<longrightarrow>
     (\<exists>p l. m_layers s' (info_id layerInfo) = Some p \<and> heap_get (layerHeap s') p = Some l \<and>
        m_masksToBounds l =
          (if info_isRootLayer layerInfo then False else info_masksToBounds layerInfo)) \<and>
     (info_isRootLayer layerInfo \<longrightarrow> m_rootLayerID s' = info_id layerInfo)"
proof (intro impI conjI)
  assume a: "syncLayerParameters layerInfo s = Inr s'"
  from syncLayerParameters_node[OF a] obtain p layer l' where
    p: "m_layers s' (info_id layerInfo) = Some p" "heap_get (layerHeap s') p = Some l'"
    and g: "geom l' = geom (sync_attrs2 layerInfo
              (sync_node layerInfo (ensureLayer (info_id layerInfo) s) layer))"
    by blast
  from geom_masksToBounds[OF g]
  have "m_masksToBounds l' =
      (if info_isRootLayer layerInfo then False else info_masksToBounds layerInfo)"
    by (simp add: sync_attrs2_def)
  with p show "\<exists>p l. m_layers s' (info_id layerInfo) = Some p \<and>
        heap_get (layerHeap s') p = Some l \<and>
        m_masksToBounds l =
          (if info_isRootLayer layerInfo then False else info_masksToBounds layerInfo)"
    by blast
  show "m_rootLayerID s' = info_id layerInfo" if "info_isRootLayer layerInfo"
    using syncLayerParameters_root[OF a that] .
qed

text \<open>
  The claim as stated fails: in \<open>exampleTree\<close> the identifier 1 is the root and its node
  hangs under the root container. A descriptor for 1 with the root flag unset and
  \<open>masksToBounds\<close> set leaves 1 the root and makes its node clip.
\<close>

theorem masksToBounds_current_root_counterexample:
  "m_rootLayerID exampleTree = 1 \<and> layerByID exampleTree 1 = Some 1 \<and>
   map_sum id (\<lambda>s'. (m_rootLayerID s', layerByID s' 1,
                     map_option m_masksToBounds (heap_get (layerHeap s') 1)))
     (syncLayerParameters
        ((defaultLayerInfo 1)\<lparr>info_masksToBounds := True, info_children := [2]\<rparr>) exampleTree)
   = Inr (1, Some 1, Some True)"
  by (simp add: exampleTree_def eval_defs)

theorem syncLayerParameters_masksToBounds_witness:
  "\<exists>s' p l.
     syncLayerParameters
       ((defaultLayerInfo 1)\<lparr>info_isRootLayer := True, info_masksToBounds := True,
          info_children := [2]\<rparr>) exampleTree = Inr s' \<and>
     m_layers s' 1 = Some p \<and> heap_get (layerHeap s') p = Some l \<and>
     m_masksToBounds l = False \<and> m_rootLayerID s' = 1"
proof -
  let ?info = "(defaultLayerInfo 1)\<lparr>info_isRootLayer := True, info_masksToBounds := True,
          info_children := [2]\<rparr>"
  have "\<exists>s'. syncLayerParameters ?info exampleTree = Inr s'"
    by (simp add: exampleTree_def eval_defs)
  then obtain s' where s': "syncLayerParameters ?info exampleTree = Inr s'" by blast
  from syncLayerParameters_masksToBounds[of ?info exampleTree s', rule_format, OF s']
  show ?thesis using s' by (auto simp: defaultLayerInfo_def)
qed

text \<open>
  C6. \<open>SetRootLayer\<close> naming the current root identifier changes nothing. With the root
  container \<open>r\<close> in place, \<open>SetRootLayer B\<close> for another identifier makes \<open>B\<close> the root
  identifier; afterwards the container's child list is empty when \<open>B\<close> resolves to no
  node and is exactly \<open>[p]\<close> when \<open>B\<close> resolves to \<open>p\<close>, whose parent is then the
  container; every former child of the container other than \<open>p\<close> has no parent; no
  identifier leaves \<open>m_layers\<close> and no node is freed or created, so the former root stays
  allocated under its identifier.
\<close>

theorem setRootLayerID_reassigns_root:
  "setRootLayerID (m_rootLayerID s) s = Inr s \<and>
   (\<forall>r rl. B \<noteq> m_rootLayerID s \<and> m_rootLayer s = Some r \<and> heap_get (layerHeap s) r = Some rl \<longrightarrow>
     (\<exists>s'. setRootLayerID B s = Inr s' \<and>
        m_rootLayerID s' = B \<and>
        map_option m_children (heap_get (layerHeap s') r) =
          Some (case layerByID s B of None \<Rightarrow> [] | Some p \<Rightarrow> [p]) \<and>
        (\<forall>p. layerByID s B = Some p \<longrightarrow>
           map_option m_parent (heap_get (layerHeap s') p) =
           map_option (\<lambda>_. Some r) (heap_get (layerHeap s) p)) \<and>
        (\<forall>c \<in> set (m_children rl). layerByID s B \<noteq> Some c \<longrightarrow>
           map_option m_parent (heap_get (layerHeap s') c) =
           map_option (\<lambda>_. None) (heap_get (layerHeap s) c)) \<and>
        m_layers s' = m_layers s \<and>
        length (layerHeap s') = length (layerHeap s) \<and>
        (\<forall>q. map_option attrs (heap_get (layerHeap s') q) =
             map_option attrs (heap_get (layerHeap s) q))))"
proof (intro conjI allI impI)
  show "setRootLayerID (m_rootLayerID s) s = Inr s" by (rule setRootLayerID_same)
next
  fix r rl
  assume a: "B \<noteq> m_rootLayerID s \<and> m_rootLayer s = Some r \<and> heap_get (layerHeap s) r = Some rl"
  then obtain s' where s': "setRootLayerID B s = Inr s'" "m_rootLayerID s' = B"
    "m_layers s' = m_layers s"
    and h: "layerHeap s' = (case layerByID s B of
                       None \<Rightarrow> removeAllChildren r (layerHeap s)
                     | Some p \<Rightarrow> addChild r p (removeAllChildren r (layerHeap s)))"
    using setRootLayerID_heap[of B s r] by blast
  let ?h2 = "removeAllChildren r (layerHeap s)"
  have e: "map_option m_children (heap_get ?h2 r) = Some []"
    using a by (simp add: children_removeAllChildren_self)
  have c1: "map_option m_children (heap_get (layerHeap s') r) =
          Some (case layerByID s B of None \<Rightarrow> [] | Some p \<Rightarrow> [p])"
  proof (cases "layerByID s B")
    case None
    with e show ?thesis by (simp add: h)
  next
    case (Some p)
    with children_addChild_empty[OF e, of p] show ?thesis by (simp add: h)
  qed
  have c2: "\<forall>p. layerByID s B = Some p \<longrightarrow>
           map_option m_parent (heap_get (layerHeap s') p) =
           map_option (\<lambda>_. Some r) (heap_get (layerHeap s) p)"
  proof (intro allI impI)
    fix p assume p: "layerByID s B = Some p"
    have "map_option (\<lambda>_. Some r) (heap_get ?h2 p) = map_option (\<lambda>_. Some r) (heap_get (layerHeap s) p)"
      using live_removeAllChildren[of r "layerHeap s" p]
      by (cases "heap_get (layerHeap s) p"; cases "heap_get ?h2 p") auto
    then show "map_option m_parent (heap_get (layerHeap s') p) =
           map_option (\<lambda>_. Some r) (heap_get (layerHeap s) p)"
      by (simp add: h p parent_addChild_self)
  qed
  have c3: "\<forall>c \<in> set (m_children rl). layerByID s B \<noteq> Some c \<longrightarrow>
           map_option m_parent (heap_get (layerHeap s') c) =
           map_option (\<lambda>_. None) (heap_get (layerHeap s) c)"
  proof (intro ballI impI)
    fix c assume c: "c \<in> set (m_children rl)" "layerByID s B \<noteq> Some c"
    have "map_option m_parent (heap_get ?h2 c) = map_option (\<lambda>_. None) (heap_get (layerHeap s) c)"
      using a c(1) by (intro parent_removeAllChildren_child) auto
    then show "map_option m_parent (heap_get (layerHeap s') c) =
           map_option (\<lambda>_. None) (heap_get (layerHeap s) c)"
      using c(2) by (auto simp: h parent_addChild_other split: option.split)
  qed
  have c4: "length (layerHeap s') = length (layerHeap s)"
    by (simp add: h split: option.split)
  have c5: "\<forall>q. map_option attrs (heap_get (layerHeap s') q) =
             map_option attrs (heap_get (layerHeap s) q)"
    by (simp add: h split: option.split)
  from s' c1 c2 c3 c4 c5
  show "\<exists>s'. setRootLayerID B s = Inr s' \<and>
        m_rootLayerID s' = B \<and>
        map_option m_children (heap_get (layerHeap s') r) =
          Some (case layerByID s B of None \<Rightarrow> [] | Some p \<Rightarrow> [p]) \<and>
        (\<forall>p. layerByID s B = Some p \<longrightarrow>
           map_option m_parent (heap_get (layerHeap s') p) =
           map_option (\<lambda>_. Some r) (heap_get (layerHeap s) p)) \<and>
        (\<forall>c \<in> set (m_children rl). layerByID s B \<noteq> Some c \<longrightarrow>
           map_option m_parent (heap_get (layerHeap s') c) =
           map_option (\<lambda>_. None) (heap_get (layerHeap s) c)) \<and>
        m_layers s' = m_layers s \<and>
        length (layerHeap s') = length (layerHeap s) \<and>
        (\<forall>q. map_option attrs (heap_get (layerHeap s') q) =
             map_option attrs (heap_get (layerHeap s) q))"
    by blast
qed

theorem setRootLayerID_witness:
  "setRootLayerID 1 exampleTree = Inr exampleTree \<and>
   (\<exists>s'. setRootLayerID 2 exampleTree = Inr s' \<and> m_rootLayerID s' = 2 \<and>
      map_option m_children (heap_get (layerHeap s') 0) = Some [2] \<and>
      map_option m_parent (heap_get (layerHeap s') 2) = Some (Some 0) \<and>
      map_option m_parent (heap_get (layerHeap s') 1) = Some None \<and>
      m_layers s' 1 = Some 1 \<and> heap_get (layerHeap s') 1 \<noteq> None) \<and>
   (\<exists>s'. setRootLayerID 9 exampleTree = Inr s' \<and> m_rootLayerID s' = 9 \<and>
      map_option m_children (heap_get (layerHeap s') 0) = Some [] \<and>
      m_layers s' 1 = Some 1)"
proof (intro conjI)
  show "setRootLayerID 1 exampleTree = Inr exampleTree"
    using setRootLayerID_reassigns_root[of exampleTree, THEN conjunct1]
    by (simp add: exampleTree_lookup)
next
  have "2 \<noteq> m_rootLayerID exampleTree \<and> m_rootLayer exampleTree = Some 0 \<and>
      heap_get (layerHeap exampleTree) 0 = Some exampleRoot"
    by (simp add: exampleTree_lookup)
  from setRootLayerID_reassigns_root[of exampleTree 2, THEN conjunct2, rule_format, OF this]
  obtain s' where s': "setRootLayerID 2 exampleTree = Inr s'" "m_rootLayerID s' = 2"
    "map_option m_children (heap_get (layerHeap s') 0) =
       Some (case layerByID exampleTree 2 of None \<Rightarrow> [] | Some p \<Rightarrow> [p])"
    "\<And>p. layerByID exampleTree 2 = Some p \<Longrightarrow>
       map_option m_parent (heap_get (layerHeap s') p) =
       map_option (\<lambda>_. Some 0) (heap_get (layerHeap exampleTree) p)"
    "\<And>c. c \<in> set (m_children exampleRoot) \<Longrightarrow> layerByID exampleTree 2 \<noteq> Some c \<Longrightarrow>
       map_option m_parent (heap_get (layerHeap s') c) =
       map_option (\<lambda>_. None) (heap_get (layerHeap exampleTree) c)"
    "m_layers s' = m_layers exampleTree"
    "\<And>q. map_option attrs (heap_get (layerHeap s') q) =
       map_option attrs (heap_get (layerHeap exampleTree) q)"
    by blast
  have "heap_get (layerHeap s') 1 \<noteq> None"
    using attrs_eq_None[OF s'(7)[of 1]] exampleTree_lookup(4) by simp
  moreover have "map_option m_parent (heap_get (layerHeap s') 1) = Some None"
    using s'(5)[of 1] exampleTree_lookup(4,10) by (simp add: exampleRoot_def)
  moreover have "map_option m_parent (heap_get (layerHeap s') 2) = Some (Some 0)"
    using s'(4)[of 2] exampleTree_lookup(5,10) by simp
  ultimately show "\<exists>s'. setRootLayerID 2 exampleTree = Inr s' \<and> m_rootLayerID s' = 2 \<and>
      map_option m_children (heap_get (layerHeap s') 0) = Some [2] \<and>
      map_option m_parent (heap_get (layerHeap s') 2) = Some (Some 0) \<and>
      map_option m_parent (heap_get (layerHeap s') 1) = Some None \<and>
      m_layers s' 1 = Some 1 \<and> heap_get (layerHeap s') 1 \<noteq> None"
    using s'(1,2,3,6) exampleTree_lookup(7,10) by simp
next
  have "9 \<noteq> m_rootLayerID exampleTree \<and> m_rootLayer exampleTree = Some 0 \<and>
      heap_get (layerHeap exampleTree) 0 = Some exampleRoot"
    by (simp add: exampleTree_lookup)
  from setRootLayerID_reassigns_root[of exampleTree 9, THEN conjunct2, rule_format, OF this]
  obtain s' where s': "setRootLayerID 9 exampleTree = Inr s'" "m_rootLayerID s' = 9"
    "map_option m_children (heap_get (layerHeap s') 0) =
       Some (case layerByID exampleTree 9 of None \<Rightarrow> [] | Some p \<Rightarrow> [p])"
    "m_layers s' = m_layers exampleTree"
    by blast
  then show "\<exists>s'. setRootLayerID 9 exampleTree = Inr s' \<and> m_rootLayerID s' = 9 \<and>
      map_option m_children (heap_get (layerHeap s') 0) = Some [] \<and>
      m_layers s' 1 = Some 1"
    using exampleTree_lookup(7,11) by simp
qed




text \<open>
  C8. \<open>DeleteLayer\<close> for an identifier that resolves to no node leaves the whole state as
  it is. For an identifier that resolves to the node \<open>p\<close>, the node is taken out of its
  parent's child list, the identifier is taken out of \<open>m_layers\<close>, and the node's cell is
  freed; the attributes of every other node and the rest of the state stay as they were.
\<close>

theorem deleteLayer_unknown_noop_known_detached:
  "(layerByID s i = None \<longrightarrow> deleteLayer i s = s) \<and>
   (\<forall>p. layerByID s i = Some p \<longrightarrow>
      m_layers (deleteLayer i s) = (m_layers s)(i := None) \<and>
      heap_get (layerHeap (deleteLayer i s)) p = None \<and>
      (\<forall>l q. heap_get (layerHeap s) p = Some l \<and> m_parent l = Some q \<and> q \<noteq> p \<longrightarrow>
         map_option m_children (heap_get (layerHeap (deleteLayer i s)) q) =
         map_option (\<lambda>ql. remove1 p (m_children ql)) (heap_get (layerHeap s) q)) \<and>
      (\<forall>q. q \<noteq> p \<longrightarrow>
         map_option attrs (heap_get (layerHeap (deleteLayer i s)) q) =
         map_option attrs (heap_get (layerHeap s) q)) \<and>
      storeHeap (deleteLayer i s) = storeHeap s \<and>
      m_rootLayerID (deleteLayer i s) = m_rootLayerID s \<and>
      m_rootLayer (deleteLayer i s) = m_rootLayer s \<and>
      m_directlyCompositedImages (deleteLayer i s) = m_directlyCompositedImages s \<and>
      m_backingStoresWithPendingBuffers (deleteLayer i s) = m_backingStoresWithPendingBuffers s \<and>
      sentMessages (deleteLayer i s) = sentMessages s)"
proof (intro conjI allI impI)
  fix p l q
  assume p: "layerByID s i = Some p"
    and l: "heap_get (layerHeap s) p = Some l \<and> m_parent l = Some q \<and> q \<noteq> p"
  from l show "map_option m_children (heap_get (layerHeap (deleteLayer i s)) q) =
      map_option (\<lambda>ql. remove1 p (m_children ql)) (heap_get (layerHeap s) q)"
    by (intro deleteLayer_parent_children[OF p]) auto
qed (simp_all add: deleteLayer_noop deleteLayer_layers deleteLayer_heap attrs_deleteGraphicsLayer)

theorem deleteLayer_witness:
  "deleteLayer 7 exampleTree = exampleTree \<and>
   m_layers (deleteLayer 2 exampleTree) 2 = None \<and>
   m_layers (deleteLayer 2 exampleTree) 1 = Some 1 \<and>
   heap_get (layerHeap (deleteLayer 2 exampleTree)) 2 = None \<and>
   map_option m_children (heap_get (layerHeap (deleteLayer 2 exampleTree)) 1) = Some []"
  using deleteLayer_unknown_noop_known_detached[of exampleTree 7]
    deleteLayer_unknown_noop_known_detached[of exampleTree 2]
  by (simp add: exampleTree_def layerByID_def InvalidWebLayerID_def heap_get_def)

text \<open>
  C9. A wheel event whose position lies inside the non-fast-scrollable region gets the
  result \<open>SendToMainThread\<close> and leaves the tree as it is, whatever nodes the tree has at
  that position.
\<close>

theorem tryToHandleWheelEvent_nonFastScrollable:
  "Region_contains (m_nonFastScrollableRegion t) (wheel_position wheelEvent) \<longrightarrow>
     tryToHandleWheelEvent wheelEvent t = (SendToMainThread, t)"
  by (simp add: tryToHandleWheelEvent_def)

theorem tryToHandleWheelEvent_nonFastScrollable_witness:
  "Region_contains (m_nonFastScrollableRegion (exampleScrollingTree [IntRect 10 10 20 20]))
     (wheel_position \<lparr> wheel_position = (15, 15), wheel_deltaX = 0, wheel_deltaY = 3 \<rparr>) \<and>
   tryToHandleWheelEvent \<lparr> wheel_position = (15, 15), wheel_deltaX = 0, wheel_deltaY = 3 \<rparr>
     (exampleScrollingTree [IntRect 10 10 20 20]) =
     (SendToMainThread, exampleScrollingTree [IntRect 10 10 20 20]) \<and>
   fst (tryToHandleWheelEvent \<lparr> wheel_position = (15, 15), wheel_deltaX = 0, wheel_deltaY = 3 \<rparr>
     (exampleScrollingTree [])) = DidHandleEvent"
proof -
  let ?e = "\<lparr> wheel_position = (15, 15), wheel_deltaX = 0, wheel_deltaY = 3 \<rparr>"
  have c: "Region_contains (m_nonFastScrollableRegion (exampleScrollingTree [IntRect 10 10 20 20]))
     (wheel_position ?e)"
    by (simp add: Region_contains_def IntRect_contains_def exampleScrollingTree_def)
  from tryToHandleWheelEvent_nonFastScrollable[of "exampleScrollingTree [IntRect 10 10 20 20]" ?e,
      rule_format, OF c]
  have "tryToHandleWheelEvent ?e (exampleScrollingTree [IntRect 10 10 20 20]) =
     (SendToMainThread, exampleScrollingTree [IntRect 10 10 20 20])" .
  moreover have "fst (tryToHandleWheelEvent ?e (exampleScrollingTree [])) = DidHandleEvent"
    by (simp add: tryToHandleWheelEvent_def Region_contains_def IntRect_contains_def
        exampleScrollingTree_def pinnedDelta_def)
  ultimately show ?thesis using c by blast
qed





end
